theory Spec2Isabelle
  imports Main "HOL-Library.Word" "HOL-Library.Monad_Syntax"
begin

unbundle bit_operations_syntax

section \<open>Machine types, memory and constants\<close>

text \<open>
  The module \<^verbatim>\<open>q_aifo_stfq.c\<close> is the \<^verbatim>\<open>tc\<close> front end of
  the AIFO-STFQ queueing discipline: \<^verbatim>\<open>aifo_parse_opt\<close> turns command-line tokens into
  netlink attributes, \<^verbatim>\<open>aifo_print_opt\<close> and \<^verbatim>\<open>aifo_print_xstats\<close> print what
  the kernel sent back. C's \<^verbatim>\<open>unsigned int\<close>, \<^verbatim>\<open>__u32\<close> and \<^verbatim>\<open>uint32_t\<close> are
  32-bit words, \<^verbatim>\<open>__u16\<close> and \<^verbatim>\<open>unsigned short\<close> 16-bit words, \<^verbatim>\<open>size_t\<close> and
  \<^verbatim>\<open>__u64\<close> 64-bit words (the LP64 Linux ABI).
\<close>

type_synonym byte = "8 word"
type_synonym u16 = "16 word"
type_synonym u32 = "32 word"
type_synonym u64 = "64 word"

text \<open>
  A pointer into a buffer is the list of the bytes from the pointer to the end of the
  buffer; \<^verbatim>\<open>p + k\<close> is \<open>drop k p\<close>. A load that needs more bytes than the buffer
  holds is undefined in C and \<open>None\<close> here. Integers are stored in host byte order,
  taken to be little-endian.
\<close>

definition u16_bytes :: "u16 \<Rightarrow> byte list" where
  "u16_bytes w = [ucast w, ucast (drop_bit 8 w)]"

definition u32_bytes :: "u32 \<Rightarrow> byte list" where
  "u32_bytes w = [ucast w, ucast (drop_bit 8 w), ucast (drop_bit 16 w), ucast (drop_bit 24 w)]"

fun load_u16 :: "byte list \<Rightarrow> u16 option" where
  "load_u16 (b0 # b1 # _) = Some (ucast b0 OR push_bit 8 (ucast b1))"
| "load_u16 _ = None"

fun load_u32 :: "byte list \<Rightarrow> u32 option" where
  "load_u32 (b0 # b1 # b2 # b3 # _) =
     Some (ucast b0 OR push_bit 8 (ucast b1) OR push_bit 16 (ucast b2) OR push_bit 24 (ucast b3))"
| "load_u32 _ = None"


text \<open>The tag enumeration \<^verbatim>\<open>TCA_AIFO_*\<close> and \<^verbatim>\<open>AIFO_SAMPLE_SIZE_MAX\<close>.\<close>

definition TCA_AIFO_UNSPEC :: nat where "TCA_AIFO_UNSPEC = 0"
definition TCA_AIFO_PLIMIT :: nat where "TCA_AIFO_PLIMIT = 1"
definition TCA_AIFO_BURST :: nat where "TCA_AIFO_BURST = 2"
definition TCA_AIFO_BUCKETS_LOG :: nat where "TCA_AIFO_BUCKETS_LOG = 3"
definition TCA_AIFO_HASH_MASK :: nat where "TCA_AIFO_HASH_MASK = 4"
definition TCA_AIFO_FLOW_PLIMIT :: nat where "TCA_AIFO_FLOW_PLIMIT = 5"
definition TCA_AIFO_SAMPLE_SIZE :: nat where "TCA_AIFO_SAMPLE_SIZE = 6"
definition TCA_AIFO_SAMPLE_PERIOD :: nat where "TCA_AIFO_SAMPLE_PERIOD = 7"
definition TCA_AIFO_FLAGS :: nat where "TCA_AIFO_FLAGS = 8"
definition TCA_AIFO_MAX :: nat where "TCA_AIFO_MAX = 8"

definition AIFO_SAMPLE_SIZE_MAX :: u16 where "AIFO_SAMPLE_SIZE_MAX = 1024"

text \<open>
  Modelled from the spec: the constants \<^verbatim>\<open>TCA_OPTIONS\<close> (the tag of the outer nested
  block, \<^verbatim>\<open>linux/rtnetlink.h\<close>), \<^verbatim>\<open>MAX_MSG\<close> (\<^verbatim>\<open>tc_util.h\<close>) and
  \<^verbatim>\<open>NLA_F_NESTED\<close> (\<^verbatim>\<open>linux/netlink.h\<close>) come from headers outside the source file.
\<close>

definition TCA_OPTIONS :: nat where "TCA_OPTIONS = 2"
definition MAX_MSG :: nat where "MAX_MSG = 16384"
definition NLA_F_NESTED :: u16 where "NLA_F_NESTED = 0x8000"

section \<open>ilog2\<close>

text \<open>
  The loop of \<^verbatim>\<open>ilog2\<close>: \<^verbatim>\<open>while (val) { res++; val >>= 1; }\<close> on 32-bit
  \<^verbatim>\<open>unsigned int\<close>.
\<close>

function ilog2_loop :: "u32 \<Rightarrow> u32 \<Rightarrow> u32" where
  "ilog2_loop val res = (if val \<noteq> 0 then ilog2_loop (drop_bit 1 val) (res + 1) else res)"
  by pat_completeness auto
termination
proof (relation "measure (\<lambda>(val, res). unat val)")
  show "wf (measure (\<lambda>(val :: u32, res :: u32). unat val))" by simp
next
  fix val res :: u32
  assume "val \<noteq> 0"
  then have "0 < unat val" by (simp add: unat_gt_0)
  then have "unat val div 2 < unat val" by simp
  then show "((drop_bit 1 val, res + 1), (val, res)) \<in> measure (\<lambda>(val, res). unat val)"
    by (simp add: drop_bit_eq_div unat_div)
qed

definition ilog2 :: "u32 \<Rightarrow> u32" where
  "ilog2 val = ilog2_loop (val - 1) 0"

text \<open>The number of binary digits of a natural number, to state what the loop computes.\<close>

fun bitlen :: "nat \<Rightarrow> nat" where
  "bitlen n = (if n = 0 then 0 else Suc (bitlen (n div 2)))"


section \<open>Building the request: the attribute primitives\<close>

text \<open>
  Modelled from the spec: the buffer-append collaborator (\<^verbatim>\<open>addattr_l\<close>,
  \<^verbatim>\<open>addattr32\<close>, \<^verbatim>\<open>addattr16\<close>, \<^verbatim>\<open>addattr_nest\<close>, \<^verbatim>\<open>addattr_nest_end\<close>
  of libnetlink, with the macros \<^verbatim>\<open>NLMSG_ALIGN\<close>, \<^verbatim>\<open>RTA_ALIGN\<close>, \<^verbatim>\<open>RTA_LENGTH\<close>,
  \<^verbatim>\<open>NLMSG_TAIL\<close>) is outside the source file. The message \<^verbatim>\<open>n\<close> is the list of its
  bytes, \<^verbatim>\<open>n->nlmsg_len\<close> is its length. An attribute is a 4-byte header
  (\<^verbatim>\<open>rta_len\<close>, \<^verbatim>\<open>rta_type\<close>) and the value, appended at the 4-byte aligned tail
  unless the message would grow beyond \<^verbatim>\<open>maxlen\<close>; then \<^verbatim>\<open>addattr_l\<close> returns
  \<open>-1\<close> and leaves the message as it is. Padding bytes, which the primitives leave as the
  caller's zero-initialised buffer had them, are \<open>0\<close>. A pointer into the message
  (\<^verbatim>\<open>tail\<close>) is its offset.
\<close>

type_synonym nlmsghdr = "byte list"

definition NLMSG_ALIGN :: "nat \<Rightarrow> nat" where
  "NLMSG_ALIGN len = (len + 3) div 4 * 4"

definition RTA_ALIGN :: "nat \<Rightarrow> nat" where
  "RTA_ALIGN len = (len + 3) div 4 * 4"

definition RTA_LENGTH :: "nat \<Rightarrow> nat" where
  "RTA_LENGTH len = RTA_ALIGN 4 + len"

definition NLMSG_TAIL :: "nlmsghdr \<Rightarrow> nat" where
  "NLMSG_TAIL n = NLMSG_ALIGN (length n)"

definition zero_pad :: "nat \<Rightarrow> byte list \<Rightarrow> byte list" where
  "zero_pad k bs = bs @ replicate (k - length bs) 0"

definition addattr_l :: "nlmsghdr \<Rightarrow> nat \<Rightarrow> nat \<Rightarrow> byte list \<Rightarrow> int \<times> nlmsghdr" where
  "addattr_l n maxlen type data =
     (let len = RTA_LENGTH (length data) in
      if NLMSG_ALIGN (length n) + RTA_ALIGN len > maxlen then (- 1, n)
      else (0, zero_pad (NLMSG_TAIL n) n @ u16_bytes (of_nat len) @ u16_bytes (of_nat type)
                 @ zero_pad (RTA_ALIGN len - 4) data))"

definition addattr32 :: "nlmsghdr \<Rightarrow> nat \<Rightarrow> nat \<Rightarrow> u32 \<Rightarrow> int \<times> nlmsghdr" where
  "addattr32 n maxlen type data = addattr_l n maxlen type (u32_bytes data)"

definition addattr16 :: "nlmsghdr \<Rightarrow> nat \<Rightarrow> nat \<Rightarrow> u16 \<Rightarrow> int \<times> nlmsghdr" where
  "addattr16 n maxlen type data = addattr_l n maxlen type (u16_bytes data)"

definition addattr_nest :: "nlmsghdr \<Rightarrow> nat \<Rightarrow> nat \<Rightarrow> nat \<times> nlmsghdr" where
  "addattr_nest n maxlen type = (let nest = NLMSG_TAIL n in (nest, snd (addattr_l n maxlen type [])))"

text \<open>
  \<^verbatim>\<open>nest->rta_len = (void *)NLMSG_TAIL(n) - (void *)nest\<close>: two bytes stored at the offset
  \<open>nest\<close>. Where \<open>nest\<close> lies beyond the message (nothing was appended after a failed
  \<^verbatim>\<open>addattr_nest\<close>), the store falls into the unused part of the caller's buffer and the
  message is as before.
\<close>

definition store_u16 :: "byte list \<Rightarrow> nat \<Rightarrow> u16 \<Rightarrow> byte list" where
  "store_u16 m off w = m[off := ucast w, off + 1 := ucast (drop_bit 8 w)]"

definition addattr_nest_end :: "nlmsghdr \<Rightarrow> nat \<Rightarrow> int \<times> nlmsghdr" where
  "addattr_nest_end n nest =
     (let n' = store_u16 n nest (of_nat (NLMSG_TAIL n - nest)) in (int (length n'), n'))"

section \<open>Parsing the options: \<^verbatim>\<open>aifo_parse_opt\<close>\<close>

text \<open>
  The integer parsers \<^verbatim>\<open>get_u32\<close>, \<^verbatim>\<open>get_u16\<close> and \<^verbatim>\<open>get_unsigned\<close> (called with
  base 0) belong to the \<^verbatim>\<open>tc\<close> utilities, outside the source file. They are a
  parameter of the model: each either yields the value (the C function returns 0) or
  fails (it returns \<open>-1\<close>).
\<close>

record utils =
  get_u32 :: "string \<Rightarrow> u32 option"
  get_u16 :: "string \<Rightarrow> u16 option"
  get_unsigned :: "string \<Rightarrow> u32 option"

text \<open>
  An instance of the parsers for running the model on concrete tokens: decimal digits
  only (no sign, no prefix, no white space), failing on an empty token, on any other
  character and on a value beyond the type's range, as the C parsers do on such tokens.
\<close>

definition digit_val :: "char \<Rightarrow> nat option" where
  "digit_val c = (let k = of_char c :: nat in if 48 \<le> k \<and> k \<le> 57 then Some (k - 48) else None)"

fun dec_loop :: "nat \<Rightarrow> string \<Rightarrow> nat option" where
  "dec_loop acc [] = Some acc"
| "dec_loop acc (c # cs) =
     (case digit_val c of None \<Rightarrow> None | Some d \<Rightarrow> dec_loop (10 * acc + d) cs)"

definition strtoul_dec :: "string \<Rightarrow> nat option" where
  "strtoul_dec s = (if s = [] then None else dec_loop 0 s)"

definition dec_utils :: utils where
  "dec_utils = \<lparr>
     get_u32 = (\<lambda>s. case strtoul_dec s of None \<Rightarrow> None
                  | Some k \<Rightarrow> if k > 0xFFFFFFFF then None else Some (of_nat k)),
     get_u16 = (\<lambda>s. case strtoul_dec s of None \<Rightarrow> None
                  | Some k \<Rightarrow> if k > 0xFFFF then None else Some (of_nat k)),
     get_unsigned = (\<lambda>s. case strtoul_dec s of None \<Rightarrow> None
                  | Some k \<Rightarrow> if k > 0xFFFFFFFF then None else Some (of_nat k)) \<rparr>"

text \<open>
  The failures of the token loop. Each one but \<open>MissingArgument\<close> is a message on
  \<^verbatim>\<open>stderr\<close> and \<^verbatim>\<open>return -1\<close>; \<^verbatim>\<open>NEXT_ARG()\<close> with no token left calls
  \<^verbatim>\<open>incomplete_command()\<close>, which ends the process.
\<close>

datatype error =
    UnknownOption string
  | MissingArgument
  | InvalidInteger string
  | ValueTooLarge
  | HelpRequested

text \<open>The local variables of \<^verbatim>\<open>aifo_parse_opt\<close> and their initial values.\<close>

record opts =
  plimit :: u32
  burst :: u32
  buckets :: u32
  hash_mask :: u32
  flow_plimit :: u32
  sample_size :: u16
  sample_period :: u16
  flags :: u32
  flags_upd :: bool

definition opts_init :: opts where
  "opts_init = \<lparr> plimit = 0xFFFFFFFF, burst = 0xFFFFFFFF, buckets = 0, hash_mask = 0x0,
     flow_plimit = 0xFFFFFFFF, sample_size = 0xFFFF, sample_period = 0xFFFF, flags = 0x0,
     flags_upd = False \<rparr>"

text \<open>\<^verbatim>\<open>strcasecmp(a, b) == 0\<close> in the C locale.\<close>

definition tolower :: "char \<Rightarrow> char" where
  "tolower c = (let k = of_char c :: nat in if 65 \<le> k \<and> k \<le> 90 then char_of (k + 32) else c)"

definition strcasecmp_eq :: "string \<Rightarrow> string \<Rightarrow> bool" where
  "strcasecmp_eq a b = (map tolower a = map tolower b)"

text \<open>
  The \<^verbatim>\<open>while (argc > 0)\<close> loop: \<open>v\<close> holds the locals, the list the tokens from
  \<^verbatim>\<open>*argv\<close> on.
\<close>

fun parse_args :: "utils \<Rightarrow> opts \<Rightarrow> string list \<Rightarrow> error + opts" where
  "parse_args U v [] = Inr v"
| "parse_args U v (a # argv) =
     (if a = ''limit'' then
        (case argv of [] \<Rightarrow> Inl MissingArgument
         | x # argv' \<Rightarrow>
            (case get_u32 U x of None \<Rightarrow> Inl (InvalidInteger ''limit'')
             | Some r \<Rightarrow> parse_args U (v\<lparr>plimit := r\<rparr>) argv'))
      else if a = ''buckets'' then
        (case argv of [] \<Rightarrow> Inl MissingArgument
         | x # argv' \<Rightarrow>
            (case get_unsigned U x of None \<Rightarrow> Inl (InvalidInteger ''buckets'')
             | Some r \<Rightarrow> parse_args U (v\<lparr>buckets := r\<rparr>) argv'))
      else if a = ''burst'' then
        (case argv of [] \<Rightarrow> Inl MissingArgument
         | x # argv' \<Rightarrow>
            (case get_u32 U x of None \<Rightarrow> Inl (InvalidInteger ''burst'')
             | Some r \<Rightarrow> parse_args U (v\<lparr>burst := r\<rparr>) argv'))
      else if a = ''hash_mask'' then
        (case argv of [] \<Rightarrow> Inl MissingArgument
         | x # argv' \<Rightarrow>
            (case get_u32 U x of None \<Rightarrow> Inl (InvalidInteger ''hash_mask'')
             | Some r \<Rightarrow> parse_args U (v\<lparr>hash_mask := r\<rparr>) argv'))
      else if a = ''flow_limit'' then
        (case argv of [] \<Rightarrow> Inl MissingArgument
         | x # argv' \<Rightarrow>
            (case get_u32 U x of None \<Rightarrow> Inl (InvalidInteger ''flow_limit'')
             | Some r \<Rightarrow> parse_args U (v\<lparr>flow_plimit := r\<rparr>) argv'))
      else if a = ''samples'' then
        (case argv of [] \<Rightarrow> Inl MissingArgument
         | x # argv' \<Rightarrow>
            (case get_u16 U x of None \<Rightarrow> Inl (InvalidInteger ''samples'')
             | Some r \<Rightarrow>
                 if r > AIFO_SAMPLE_SIZE_MAX then Inl ValueTooLarge
                 else parse_args U (v\<lparr>sample_size := r\<rparr>) argv'))
      else if a = ''speriod'' then
        (case argv of [] \<Rightarrow> Inl MissingArgument
         | x # argv' \<Rightarrow>
            (case get_u16 U x of None \<Rightarrow> Inl (InvalidInteger ''speriod'')
             | Some r \<Rightarrow> parse_args U (v\<lparr>sample_period := r\<rparr>) argv'))
      else if strcasecmp_eq a ''flags'' then
        (case argv of [] \<Rightarrow> Inl MissingArgument
         | x # argv' \<Rightarrow>
            (case get_unsigned U x of None \<Rightarrow> Inl (InvalidInteger ''flags'')
             | Some r \<Rightarrow> parse_args U (v\<lparr>flags := r, flags_upd := True\<rparr>) argv'))
      else if a = ''help'' then Inl HelpRequested
      else Inl (UnknownOption a))"

text \<open>The option names that are compared with \<^verbatim>\<open>strcmp\<close> and take a value.\<close>

definition value_options :: "string list" where
  "value_options =
     [''limit'', ''buckets'', ''burst'', ''hash_mask'', ''flow_limit'', ''samples'', ''speriod'']"

text \<open>
  The tokens in option-name position when every option takes one value: the first, the
  third and so on.
\<close>

fun option_names :: "string list \<Rightarrow> string list" where
  "option_names [] = []"
| "option_names [a] = [a]"
| "option_names (a # x # argv) = a # option_names argv"

text \<open>
  The part after the loop: the nested block and the appends, whose return values the
  source does not look at, then \<^verbatim>\<open>return 0\<close>.
\<close>

definition emit_opts :: "opts \<Rightarrow> nlmsghdr \<Rightarrow> nlmsghdr" where
  "emit_opts v n0 =
     (let (tail, n) = addattr_nest n0 1024 TCA_OPTIONS;
          n = (if plimit v \<noteq> 0xFFFFFFFF
               then snd (addattr32 n 1024 TCA_AIFO_PLIMIT (plimit v)) else n);
          n = (if burst v \<noteq> 0xFFFFFFFF
               then snd (addattr32 n MAX_MSG TCA_AIFO_BURST (burst v)) else n);
          n = (if buckets v \<noteq> 0
               then (let hash_log = ilog2 (buckets v)
                     in snd (addattr32 n 1024 TCA_AIFO_BUCKETS_LOG hash_log)) else n);
          n = (if hash_mask v \<noteq> 0x0
               then snd (addattr32 n 1024 TCA_AIFO_HASH_MASK (hash_mask v)) else n);
          n = (if flow_plimit v \<noteq> 0xFFFFFFFF
               then snd (addattr32 n 1024 TCA_AIFO_FLOW_PLIMIT (flow_plimit v)) else n);
          n = (if sample_size v \<noteq> 0xFFFF
               then snd (addattr16 n MAX_MSG TCA_AIFO_SAMPLE_SIZE (sample_size v)) else n);
          n = (if sample_period v \<noteq> 0xFFFF
               then snd (addattr16 n MAX_MSG TCA_AIFO_SAMPLE_PERIOD (sample_period v)) else n);
          n = (if flags_upd v
               then snd (addattr32 n MAX_MSG TCA_AIFO_FLAGS (flags v)) else n)
      in snd (addattr_nest_end n tail))"

definition aifo_parse_opt :: "utils \<Rightarrow> string list \<Rightarrow> nlmsghdr \<Rightarrow> (error + int) \<times> nlmsghdr" where
  "aifo_parse_opt U argv n =
     (case parse_args U opts_init argv of
        Inl e \<Rightarrow> (Inl e, n)
      | Inr v \<Rightarrow> (Inr 0, emit_opts v n))"

section \<open>Reading the reply: the attribute accessors\<close>

text \<open>
  Modelled from the spec: the parsing collaborator (\<^verbatim>\<open>parse_rtattr_nested\<close>,
  \<^verbatim>\<open>rta_getattr_u32\<close>, \<^verbatim>\<open>rta_getattr_u16\<close> of libnetlink, with the macros
  \<^verbatim>\<open>RTA_DATA\<close>, \<^verbatim>\<open>RTA_PAYLOAD\<close>, \<^verbatim>\<open>RTA_OK\<close>, \<^verbatim>\<open>RTA_NEXT\<close>) is outside the
  source file. A \<^verbatim>\<open>struct rtattr *\<close> is a pointer to the header: \<^verbatim>\<open>rta_len\<close> in the
  first two bytes, \<^verbatim>\<open>rta_type\<close> in the next two, the value from byte 4 on.
  \<^verbatim>\<open>RTA_PAYLOAD\<close> is \<^verbatim>\<open>(int)rta_len - RTA_LENGTH(0)\<close>, computed in \<^verbatim>\<open>size_t\<close>.
\<close>

definition rta_len :: "byte list \<Rightarrow> u16 option" where
  "rta_len rta = load_u16 rta"

definition rta_type :: "byte list \<Rightarrow> u16 option" where
  "rta_type rta = load_u16 (drop 2 rta)"

definition RTA_DATA :: "byte list \<Rightarrow> byte list" where
  "RTA_DATA rta = drop (RTA_LENGTH 0) rta"

definition RTA_PAYLOAD :: "byte list \<Rightarrow> u64 option" where
  "RTA_PAYLOAD rta = do { l \<leftarrow> rta_len rta; Some (ucast l - of_nat (RTA_LENGTH 0)) }"

definition rta_getattr_u32 :: "byte list \<Rightarrow> u32 option" where
  "rta_getattr_u32 rta = load_u32 (RTA_DATA rta)"

definition rta_getattr_u16 :: "byte list \<Rightarrow> u16 option" where
  "rta_getattr_u16 rta = load_u16 (RTA_DATA rta)"

text \<open>
  The table \<^verbatim>\<open>tb\<close> of \<^verbatim>\<open>parse_rtattr_flags\<close> maps a tag to the first attribute that
  carries it. The loop runs while \<^verbatim>\<open>RTA_OK(rta, len)\<close>: at least a header is left
  (\<open>4 \<le> len\<close>) and the declared length is at least a header and at most \<open>len\<close>;
  \<^verbatim>\<open>RTA_NEXT\<close> steps over the aligned attribute. The diagnostic that libnetlink writes to
  \<^verbatim>\<open>stderr\<close> when bytes are left over is not part of the model.
\<close>

type_synonym rtattr_tb = "nat \<Rightarrow> byte list option"

function parse_rtattr_loop :: "nat \<Rightarrow> u16 \<Rightarrow> rtattr_tb \<Rightarrow> byte list \<Rightarrow> int \<Rightarrow> rtattr_tb option" where
  "parse_rtattr_loop mx flgs tb rta len =
     (if len < 4 then Some tb
      else case rta_len rta of
        None \<Rightarrow> None
      | Some l \<Rightarrow>
          (if \<not> (4 \<le> uint l \<and> uint l \<le> len) then Some tb
           else (case rta_type rta of
              None \<Rightarrow> None
            | Some t \<Rightarrow>
                (let type = unat (t AND NOT flgs);
                     tb' = (if type \<le> mx \<and> tb type = None then tb(type \<mapsto> rta) else tb)
                 in parse_rtattr_loop mx flgs tb' (drop (RTA_ALIGN (unat l)) rta)
                      (len - int (RTA_ALIGN (unat l)))))))"
  by pat_completeness auto
termination
proof (relation "measure (\<lambda>(mx, flgs, tb, rta, len). nat len)")
  show "wf (measure (\<lambda>(mx :: nat, flgs :: u16, tb :: rtattr_tb, rta :: byte list, len). nat len))"
    by simp
next
  fix mx :: nat and flgs :: u16 and tb :: rtattr_tb and rta :: "byte list" and len :: int
    and l t :: u16 and type :: nat and tb' :: rtattr_tb
  assume "\<not> len < 4" and "\<not> \<not> (4 \<le> uint l \<and> uint l \<le> len)"
  then have "4 \<le> uint l" and "4 \<le> len"
    by simp_all
  from \<open>4 \<le> uint l\<close> have "(4 :: u16) \<le> l"
    by (simp add: word_le_def)
  then have "4 \<le> unat l"
    by (simp add: word_le_nat_alt)
  then have "0 < RTA_ALIGN (unat l)"
    unfolding RTA_ALIGN_def by presburger
  with \<open>4 \<le> len\<close> have "nat (len - int (RTA_ALIGN (unat l))) < nat len"
    by linarith
  then show "((mx, flgs, tb', drop (RTA_ALIGN (unat l)) rta, len - int (RTA_ALIGN (unat l))),
              (mx, flgs, tb, rta, len)) \<in> measure (\<lambda>(mx, flgs, tb, rta, len). nat len)"
    by simp
qed

definition parse_rtattr_flags :: "nat \<Rightarrow> byte list \<Rightarrow> int \<Rightarrow> u16 \<Rightarrow> rtattr_tb option" where
  "parse_rtattr_flags mx rta len flgs = parse_rtattr_loop mx flgs (\<lambda>_. None) rta len"

definition parse_rtattr_nested :: "nat \<Rightarrow> byte list \<Rightarrow> rtattr_tb option" where
  "parse_rtattr_nested mx rta =
     do { pl \<leftarrow> RTA_PAYLOAD rta;
          parse_rtattr_flags mx (RTA_DATA rta) (sint (ucast pl :: u32)) NLA_F_NESTED }"

section \<open>Printing: \<^verbatim>\<open>aifo_print_opt\<close> and \<^verbatim>\<open>aifo_print_xstats\<close>\<close>

text \<open>
  What is printed is the list of the calls of \<^verbatim>\<open>print_uint\<close> and \<^verbatim>\<open>print_float\<close>,
  each with its key, its format and its argument. \<^verbatim>\<open>print_uint\<close> takes an
  \<^verbatim>\<open>unsigned int\<close>. The argument of \<^verbatim>\<open>print_float\<close> is
  \<^verbatim>\<open>(float) st->quant_avg_1k / 1024.0\<close>; the item keeps the integer \<^verbatim>\<open>quant_avg_1k\<close>.
\<close>

datatype out_item =
    Print_uint string string u32
  | Print_float_div_1024 string string u32

fun item_key :: "out_item \<Rightarrow> string" where
  "item_key (Print_uint k f x) = k"
| "item_key (Print_float_div_1024 k f x) = k"

definition sizeof_u32 :: u64 where "sizeof_u32 = 4"
definition sizeof_u16 :: u64 where "sizeof_u16 = 2"

text \<open>
  The statement \<^verbatim>\<open>if (tb[T] && RTA_PAYLOAD(tb[T]) >= width) { body }\<close>, with
  \<open>a = tb[T]\<close>.
\<close>

definition if_attr :: "byte list option \<Rightarrow> u64 \<Rightarrow> (byte list \<Rightarrow> out_item list option) \<Rightarrow> out_item list option" where
  "if_attr a width body =
     (case a of None \<Rightarrow> Some []
      | Some rta \<Rightarrow> do { pl \<leftarrow> RTA_PAYLOAD rta; if pl \<ge> width then body rta else Some [] })"

text \<open>
  \<^verbatim>\<open>1U << buckets_log\<close> is undefined in C from a shift count of 32 on.
\<close>

definition shl_1U :: "u32 \<Rightarrow> u32 option" where
  "shl_1U k = (if k < 32 then Some (push_bit (unat k) 1) else None)"

definition aifo_print_opt :: "byte list option \<Rightarrow> (int \<times> out_item list) option" where
  "aifo_print_opt opt =
     (case opt of
        None \<Rightarrow> Some (0, [])
      | Some rta \<Rightarrow> do {
          tb \<leftarrow> parse_rtattr_nested TCA_AIFO_MAX rta;
          o1 \<leftarrow> if_attr (tb TCA_AIFO_PLIMIT) sizeof_u32 (\<lambda>a. do {
                  plimit \<leftarrow> rta_getattr_u32 a;
                  Some [Print_uint ''limit'' ''limit %up '' plimit] });
          o2 \<leftarrow> if_attr (tb TCA_AIFO_BURST) sizeof_u16 (\<lambda>a. do {
                  burst \<leftarrow> rta_getattr_u32 a;
                  Some [Print_uint ''burst'' ''burst %u '' burst] });
          o3 \<leftarrow> if_attr (tb TCA_AIFO_BUCKETS_LOG) sizeof_u32 (\<lambda>a. do {
                  buckets_log \<leftarrow> rta_getattr_u32 a;
                  b \<leftarrow> shl_1U buckets_log;
                  Some [Print_uint ''buckets'' ''buckets %u '' b] });
          o4 \<leftarrow> if_attr (tb TCA_AIFO_HASH_MASK) sizeof_u32 (\<lambda>a. do {
                  hash_mask \<leftarrow> rta_getattr_u32 a;
                  Some [Print_uint ''hash_mask'' ''hash_mask %u '' hash_mask] });
          o5 \<leftarrow> if_attr (tb TCA_AIFO_FLOW_PLIMIT) sizeof_u32 (\<lambda>a. do {
                  flow_plimit \<leftarrow> rta_getattr_u32 a;
                  Some [Print_uint ''flow_limit'' ''flow_limit %up '' flow_plimit] });
          o6 \<leftarrow> if_attr (tb TCA_AIFO_SAMPLE_SIZE) sizeof_u16 (\<lambda>a. do {
                  sample_size \<leftarrow> rta_getattr_u16 a;
                  Some [Print_uint ''samples'' ''samples %u '' (ucast sample_size)] });
          o7 \<leftarrow> if_attr (tb TCA_AIFO_SAMPLE_PERIOD) sizeof_u16 (\<lambda>a. do {
                  sample_period \<leftarrow> rta_getattr_u16 a;
                  Some [Print_uint ''speriod'' ''speriod %u '' (ucast sample_period)] });
          o8 \<leftarrow> if_attr (tb TCA_AIFO_FLAGS) sizeof_u32 (\<lambda>a. do {
                  flags \<leftarrow> rta_getattr_u32 a;
                  Some [Print_uint ''flags'' ''flags 0x%X '' flags] });
          Some (0, o1 @ o2 @ o3 @ o4 @ o5 @ o6 @ o7 @ o8) })"





section \<open>Blocks and their buffers\<close>

text \<open>
  The specification's condition for the one hard failure of the options decoder: the
  outer marker can be parsed when the buffer holds the four bytes of the header and the
  length that the header declares covers them (the test of \<^verbatim>\<open>RTA_OK\<close> on the header).
\<close>

definition outer_marker_parses :: "byte list \<Rightarrow> bool" where
  "outer_marker_parses rta =
     (4 \<le> length rta \<and> (case rta_len rta of None \<Rightarrow> False | Some l \<Rightarrow> 4 \<le> unat l))"

text \<open>
  An attribute lies in its buffer when its header declares at least the header's own
  length and the buffer holds the declared bytes up to the next multiple of four, as
  netlink pads every attribute.
\<close>

definition attr_in_buffer :: "byte list \<Rightarrow> bool" where
  "attr_in_buffer rta =
     (case rta_len rta of None \<Rightarrow> False
      | Some l \<Rightarrow> 4 \<le> unat l \<and> RTA_ALIGN (unat l) \<le> length rta)"

section \<open>The expected layout of the nested block\<close>

text \<open>
  The specification's picture of the encoder's output, to compare the code with: one
  attribute is its header and its value padded to four bytes; the body of the block is
  the present fields in the order of the tag enumeration; the block is the outer header,
  whose length covers the body, and the body.
\<close>

definition rtattr_bytes :: "nat \<Rightarrow> byte list \<Rightarrow> byte list" where
  "rtattr_bytes type data =
     u16_bytes (of_nat (4 + length data)) @ u16_bytes (of_nat type)
       @ zero_pad (RTA_ALIGN (length data)) data"

definition opt_attr :: "bool \<Rightarrow> nat \<Rightarrow> byte list \<Rightarrow> byte list" where
  "opt_attr c type data = (if c then rtattr_bytes type data else [])"

definition block_body :: "opts \<Rightarrow> byte list" where
  "block_body v =
     opt_attr (plimit v \<noteq> 0xFFFFFFFF) TCA_AIFO_PLIMIT (u32_bytes (plimit v)) @
     opt_attr (burst v \<noteq> 0xFFFFFFFF) TCA_AIFO_BURST (u32_bytes (burst v)) @
     opt_attr (buckets v \<noteq> 0) TCA_AIFO_BUCKETS_LOG (u32_bytes (ilog2 (buckets v))) @
     opt_attr (hash_mask v \<noteq> 0) TCA_AIFO_HASH_MASK (u32_bytes (hash_mask v)) @
     opt_attr (flow_plimit v \<noteq> 0xFFFFFFFF) TCA_AIFO_FLOW_PLIMIT (u32_bytes (flow_plimit v)) @
     opt_attr (sample_size v \<noteq> 0xFFFF) TCA_AIFO_SAMPLE_SIZE (u16_bytes (sample_size v)) @
     opt_attr (sample_period v \<noteq> 0xFFFF) TCA_AIFO_SAMPLE_PERIOD (u16_bytes (sample_period v)) @
     opt_attr (flags_upd v) TCA_AIFO_FLAGS (u32_bytes (flags v))"

definition nested_block :: "opts \<Rightarrow> byte list" where
  "nested_block v =
     u16_bytes (of_nat (4 + length (block_body v))) @ u16_bytes (of_nat TCA_OPTIONS)
       @ block_body v"

text \<open>What the decoder is expected to print for such a block.\<close>

definition opt_item :: "bool \<Rightarrow> out_item \<Rightarrow> out_item list" where
  "opt_item c i = (if c then [i] else [])"

definition block_items :: "opts \<Rightarrow> out_item list" where
  "block_items v =
     opt_item (plimit v \<noteq> 0xFFFFFFFF) (Print_uint ''limit'' ''limit %up '' (plimit v)) @
     opt_item (burst v \<noteq> 0xFFFFFFFF) (Print_uint ''burst'' ''burst %u '' (burst v)) @
     opt_item (buckets v \<noteq> 0)
       (Print_uint ''buckets'' ''buckets %u '' (push_bit (unat (ilog2 (buckets v))) 1)) @
     opt_item (hash_mask v \<noteq> 0) (Print_uint ''hash_mask'' ''hash_mask %u '' (hash_mask v)) @
     opt_item (flow_plimit v \<noteq> 0xFFFFFFFF)
       (Print_uint ''flow_limit'' ''flow_limit %up '' (flow_plimit v)) @
     opt_item (sample_size v \<noteq> 0xFFFF)
       (Print_uint ''samples'' ''samples %u '' (ucast (sample_size v))) @
     opt_item (sample_period v \<noteq> 0xFFFF)
       (Print_uint ''speriod'' ''speriod %u '' (ucast (sample_period v))) @
     opt_item (flags_upd v) (Print_uint ''flags'' ''flags 0x%X '' (flags v))"

text \<open>One step of the table of \<^verbatim>\<open>parse_rtattr_flags\<close>: the first attribute of a tag wins.\<close>

definition tb_upd :: "nat \<Rightarrow> bool \<Rightarrow> nat \<Rightarrow> byte list \<Rightarrow> rtattr_tb \<Rightarrow> rtattr_tb" where
  "tb_upd mx c t p tb = (if c \<and> t \<le> mx \<and> tb t = None then tb(t \<mapsto> p) else tb)"

section \<open>Basic facts\<close>

declare ilog2_loop.simps [simp del]
declare parse_rtattr_loop.simps [simp del]

lemmas tca_defs = TCA_AIFO_UNSPEC_def TCA_AIFO_PLIMIT_def TCA_AIFO_BURST_def
  TCA_AIFO_BUCKETS_LOG_def TCA_AIFO_HASH_MASK_def TCA_AIFO_FLOW_PLIMIT_def
  TCA_AIFO_SAMPLE_SIZE_def TCA_AIFO_SAMPLE_PERIOD_def TCA_AIFO_FLAGS_def TCA_AIFO_MAX_def

lemma length_u16_bytes [simp]: "length (u16_bytes w) = 2"
  by (simp add: u16_bytes_def)

lemma length_u32_bytes [simp]: "length (u32_bytes w) = 4"
  by (simp add: u32_bytes_def)

lemma load_u16_bytes [simp]: "load_u16 (u16_bytes w @ r) = Some w"
proof -
  let ?x = "ucast (ucast w :: byte) OR push_bit 8 (ucast (ucast (drop_bit 8 w) :: byte)) :: u16"
  have "?x = w"
  proof (rule bit_word_eqI)
    fix k assume k: "k < LENGTH(16)"
    consider "k < 8" | "8 \<le> k" by linarith
    then show "bit ?x k = bit w k"
      using k by cases (auto simp add: bit_simps)
  qed
  then show ?thesis by (simp add: u16_bytes_def)
qed

lemma load_u32_bytes [simp]: "load_u32 (u32_bytes w @ r) = Some w"
proof -
  let ?x = "ucast (ucast w :: byte) OR push_bit 8 (ucast (ucast (drop_bit 8 w) :: byte))
        OR push_bit 16 (ucast (ucast (drop_bit 16 w) :: byte))
        OR push_bit 24 (ucast (ucast (drop_bit 24 w) :: byte)) :: u32"
  have "?x = w"
  proof (rule bit_word_eqI)
    fix k assume k: "k < LENGTH(32)"
    consider "k < 8" | "8 \<le> k" "k < 16" | "16 \<le> k" "k < 24" | "24 \<le> k" by linarith
    then show "bit ?x k = bit w k"
      using k by cases (auto simp add: bit_simps)
  qed
  then show ?thesis by (simp add: u32_bytes_def)
qed

subsection \<open>Alignment and the append primitive\<close>

lemma RTA_ALIGN_dvd [simp]: "4 dvd RTA_ALIGN k"
  by (simp add: RTA_ALIGN_def)
lemma NLMSG_ALIGN_dvd [simp]: "4 dvd NLMSG_ALIGN k"
  by (simp add: NLMSG_ALIGN_def)
lemma RTA_ALIGN_ge: "k \<le> RTA_ALIGN k"
  unfolding RTA_ALIGN_def by presburger
lemma NLMSG_ALIGN_ge: "k \<le> NLMSG_ALIGN k"
  unfolding NLMSG_ALIGN_def by presburger
lemma RTA_ALIGN_id: "4 dvd k \<Longrightarrow> RTA_ALIGN k = k"
  unfolding RTA_ALIGN_def by presburger
lemma NLMSG_ALIGN_id: "4 dvd k \<Longrightarrow> NLMSG_ALIGN k = k"
  unfolding NLMSG_ALIGN_def by presburger
lemma RTA_ALIGN_add: "4 dvd a \<Longrightarrow> RTA_ALIGN (a + k) = a + RTA_ALIGN k"
  unfolding RTA_ALIGN_def by presburger

lemma length_zero_pad: "length (zero_pad k bs) = max k (length bs)"
  by (simp add: zero_pad_def)

lemma length_rtattr_bytes: "length (rtattr_bytes t d) = 4 + RTA_ALIGN (length d)"
  using RTA_ALIGN_ge[of "length d"] by (simp add: rtattr_bytes_def length_zero_pad)

lemma length_opt_attr: "length (opt_attr c t d) = (if c then 4 + RTA_ALIGN (length d) else 0)"
  by (simp add: opt_attr_def length_rtattr_bytes)

lemma opt_attr_dvd [simp]: "4 dvd length (opt_attr c t d)"
  by (simp add: length_opt_attr)

lemma addattr_l_ok:
  assumes "4 dvd length n" and "length n + 4 + RTA_ALIGN (length d) \<le> maxlen"
  shows "addattr_l n maxlen t d = (0, n @ rtattr_bytes t d)"
  using assms
  by (simp add: addattr_l_def RTA_LENGTH_def NLMSG_TAIL_def NLMSG_ALIGN_id RTA_ALIGN_id RTA_ALIGN_add
      rtattr_bytes_def zero_pad_def Let_def)

lemma addattr_l_fail:
  assumes "NLMSG_ALIGN (length n) + RTA_ALIGN (RTA_LENGTH (length d)) > maxlen"
  shows "addattr_l n maxlen t d = (- 1, n)"
  using assms by (simp add: addattr_l_def Let_def)

lemma opt_addattr_l:
  assumes "4 dvd length n" and "length n + length (opt_attr c t d) \<le> maxlen"
  shows "(if c then snd (addattr_l n maxlen t d) else n) = n @ opt_attr c t d"
proof (cases c)
  case True
  with assms have "length n + 4 + RTA_ALIGN (length d) \<le> maxlen"
    by (simp add: length_opt_attr)
  with assms(1) True show ?thesis by (simp add: opt_attr_def addattr_l_ok)
next
  case False
  then show ?thesis by (simp add: opt_attr_def)
qed

lemma store_u16_hdr:
  assumes "length p = off"
  shows "store_u16 (p @ u16_bytes a @ r) off w = p @ u16_bytes w @ r"
  using assms by (simp add: store_u16_def u16_bytes_def list_update_append)

lemma length_block_body_le: "length (block_body v) \<le> 64"
  by (simp add: block_body_def length_opt_attr RTA_ALIGN_def)

lemma emit_opts_layout:
  assumes cap: "NLMSG_ALIGN (length n) + 4 + length (block_body v) \<le> 1024"
  shows "emit_opts v n = zero_pad (NLMSG_ALIGN (length n)) n @ nested_block v"
proof -
  define p where "p = zero_pad (NLMSG_ALIGN (length n)) n"
  define h where "h = p @ u16_bytes (of_nat 4) @ u16_bytes (of_nat TCA_OPTIONS)"
  define b1 where "b1 = opt_attr (plimit v \<noteq> 0xFFFFFFFF) TCA_AIFO_PLIMIT (u32_bytes (plimit v))"
  define b2 where "b2 = opt_attr (burst v \<noteq> 0xFFFFFFFF) TCA_AIFO_BURST (u32_bytes (burst v))"
  define b3 where "b3 = opt_attr (buckets v \<noteq> 0) TCA_AIFO_BUCKETS_LOG (u32_bytes (ilog2 (buckets v)))"
  define b4 where "b4 = opt_attr (hash_mask v \<noteq> 0) TCA_AIFO_HASH_MASK (u32_bytes (hash_mask v))"
  define b5 where "b5 = opt_attr (flow_plimit v \<noteq> 0xFFFFFFFF) TCA_AIFO_FLOW_PLIMIT (u32_bytes (flow_plimit v))"
  define b6 where "b6 = opt_attr (sample_size v \<noteq> 0xFFFF) TCA_AIFO_SAMPLE_SIZE (u16_bytes (sample_size v))"
  define b7 where "b7 = opt_attr (sample_period v \<noteq> 0xFFFF) TCA_AIFO_SAMPLE_PERIOD (u16_bytes (sample_period v))"
  define b8 where "b8 = opt_attr (flags_upd v) TCA_AIFO_FLAGS (u32_bytes (flags v))"
  note bdefs = b1_def b2_def b3_def b4_def b5_def b6_def b7_def b8_def
  have body: "block_body v = b1 @ b2 @ b3 @ b4 @ b5 @ b6 @ b7 @ b8"
    by (simp add: block_body_def bdefs)
  have lp: "length p = NLMSG_ALIGN (length n)"
    using NLMSG_ALIGN_ge[of "length n"] by (simp add: p_def length_zero_pad)
  have lh: "length h = NLMSG_ALIGN (length n) + 4" by (simp add: h_def lp)
  have dv: "4 dvd length b1" "4 dvd length b2" "4 dvd length b3" "4 dvd length b4"
    "4 dvd length b5" "4 dvd length b6" "4 dvd length b7" "4 dvd length b8"
    by (simp_all add: bdefs)
  have dh: "4 dvd length h" by (simp add: lh)
  have cap': "length h + length b1 + length b2 + length b3 + length b4 + length b5
       + length b6 + length b7 + length b8 \<le> 1024"
    using cap by (simp add: body lh)
  have nest: "addattr_nest n 1024 TCA_OPTIONS = (NLMSG_ALIGN (length n), h)"
  proof -
    have "NLMSG_ALIGN (length n) + RTA_ALIGN (RTA_LENGTH 0) \<le> 1024"
      using cap by (simp add: RTA_LENGTH_def RTA_ALIGN_def)
    then show ?thesis
      by (simp add: addattr_nest_def addattr_l_def NLMSG_TAIL_def Let_def h_def p_def
          RTA_LENGTH_def RTA_ALIGN_def zero_pad_def)
  qed
  have s1: "(if plimit v \<noteq> 0xFFFFFFFF then snd (addattr32 h 1024 TCA_AIFO_PLIMIT (plimit v)) else h) = h @ b1"
    unfolding addattr32_def b1_def using dh cap' by (intro opt_addattr_l) (simp_all add: b1_def)
  have s2: "(if burst v \<noteq> 0xFFFFFFFF then snd (addattr32 (h @ b1) MAX_MSG TCA_AIFO_BURST (burst v)) else h @ b1) = (h @ b1) @ b2"
    unfolding addattr32_def b2_def using dh dv cap' by (intro opt_addattr_l) (simp_all add: b2_def[symmetric] MAX_MSG_def)
  have s3: "(if buckets v \<noteq> 0 then snd (addattr32 (h @ b1 @ b2) 1024 TCA_AIFO_BUCKETS_LOG (ilog2 (buckets v))) else h @ b1 @ b2) = (h @ b1 @ b2) @ b3"
    unfolding addattr32_def b3_def using dh dv cap' by (intro opt_addattr_l) (simp_all add: b3_def[symmetric])
  have s4: "(if hash_mask v \<noteq> 0 then snd (addattr32 (h @ b1 @ b2 @ b3) 1024 TCA_AIFO_HASH_MASK (hash_mask v)) else h @ b1 @ b2 @ b3) = (h @ b1 @ b2 @ b3) @ b4"
    unfolding addattr32_def b4_def using dh dv cap' by (intro opt_addattr_l) (simp_all add: b4_def[symmetric])
  have s5: "(if flow_plimit v \<noteq> 0xFFFFFFFF then snd (addattr32 (h @ b1 @ b2 @ b3 @ b4) 1024 TCA_AIFO_FLOW_PLIMIT (flow_plimit v)) else h @ b1 @ b2 @ b3 @ b4) = (h @ b1 @ b2 @ b3 @ b4) @ b5"
    unfolding addattr32_def b5_def using dh dv cap' by (intro opt_addattr_l) (simp_all add: b5_def[symmetric])
  have s6: "(if sample_size v \<noteq> 0xFFFF then snd (addattr16 (h @ b1 @ b2 @ b3 @ b4 @ b5) MAX_MSG TCA_AIFO_SAMPLE_SIZE (sample_size v)) else h @ b1 @ b2 @ b3 @ b4 @ b5) = (h @ b1 @ b2 @ b3 @ b4 @ b5) @ b6"
    unfolding addattr16_def b6_def using dh dv cap' by (intro opt_addattr_l) (simp_all add: b6_def[symmetric] MAX_MSG_def)
  have s7: "(if sample_period v \<noteq> 0xFFFF then snd (addattr16 (h @ b1 @ b2 @ b3 @ b4 @ b5 @ b6) MAX_MSG TCA_AIFO_SAMPLE_PERIOD (sample_period v)) else h @ b1 @ b2 @ b3 @ b4 @ b5 @ b6) = (h @ b1 @ b2 @ b3 @ b4 @ b5 @ b6) @ b7"
    unfolding addattr16_def b7_def using dh dv cap' by (intro opt_addattr_l) (simp_all add: b7_def[symmetric] MAX_MSG_def)
  have s8: "(if flags_upd v then snd (addattr32 (h @ b1 @ b2 @ b3 @ b4 @ b5 @ b6 @ b7) MAX_MSG TCA_AIFO_FLAGS (flags v)) else h @ b1 @ b2 @ b3 @ b4 @ b5 @ b6 @ b7) = (h @ b1 @ b2 @ b3 @ b4 @ b5 @ b6 @ b7) @ b8"
    unfolding addattr32_def b8_def using dh dv cap' by (intro opt_addattr_l) (simp_all add: b8_def[symmetric] MAX_MSG_def)
  have fin: "snd (addattr_nest_end (h @ b1 @ b2 @ b3 @ b4 @ b5 @ b6 @ b7 @ b8) (NLMSG_ALIGN (length n)))
      = p @ nested_block v"
  proof -
    have "4 dvd length (h @ b1 @ b2 @ b3 @ b4 @ b5 @ b6 @ b7 @ b8)"
      using dh dv by simp
    then have "NLMSG_TAIL (h @ b1 @ b2 @ b3 @ b4 @ b5 @ b6 @ b7 @ b8) - NLMSG_ALIGN (length n)
        = 4 + length (block_body v)"
      by (simp add: NLMSG_TAIL_def NLMSG_ALIGN_id lh body)
    then show ?thesis
      using store_u16_hdr[OF lp, of "of_nat 4" "u16_bytes (of_nat TCA_OPTIONS) @ block_body v"
          "of_nat (4 + length (block_body v))"]
      by (simp add: addattr_nest_end_def Let_def h_def body nested_block_def)
  qed
  show ?thesis
    unfolding emit_opts_def nest Let_def prod.case s1 s2[simplified] s3[simplified] s4[simplified]
      s5[simplified] s6[simplified] s7[simplified] s8[simplified] fin p_def[symmetric]
    by (rule refl)
qed

subsection \<open>Reading back what the encoder wrote\<close>

lemma unat_of_nat_u16: "k < 65536 \<Longrightarrow> unat (of_nat k :: u16) = k"
  by (simp add: unat_of_nat)

lemma uint_of_nat_u16: "k < 65536 \<Longrightarrow> uint (of_nat k :: u16) = int k"
  using unat_of_nat_u16[of k] by (simp only: uint_nat)

lemma rta_len_rtattr_bytes [simp]: "rta_len (rtattr_bytes t d @ r) = Some (of_nat (4 + length d))"
  by (simp add: rta_len_def rtattr_bytes_def)

lemma rta_type_rtattr_bytes [simp]: "rta_type (rtattr_bytes t d @ r) = Some (of_nat t)"
  by (simp add: rta_type_def rtattr_bytes_def)

lemma RTA_DATA_rtattr_bytes [simp]:
  "RTA_DATA (rtattr_bytes t d @ r) = zero_pad (RTA_ALIGN (length d)) d @ r"
  by (simp add: RTA_DATA_def rtattr_bytes_def RTA_LENGTH_def RTA_ALIGN_def)

lemma parse_rtattr_loop_attr:
  assumes d: "length d < 65532"
    and t: "unat ((of_nat t :: u16) AND NOT flgs) = t"
    and len: "0 \<le> len'"
  shows "parse_rtattr_loop mx flgs tb (rtattr_bytes t d @ r) (int (length (rtattr_bytes t d)) + len')
       = parse_rtattr_loop mx flgs (tb_upd mx True t (rtattr_bytes t d @ r) tb) r len'"
proof -
  have l: "uint (of_nat (4 + length d) :: u16) = int (4 + length d)"
    "unat (of_nat (4 + length d) :: u16) = 4 + length d"
    using d by (simp_all add: uint_of_nat_u16 unat_of_nat_u16 del: of_nat_add)
  have a: "RTA_ALIGN (4 + length d) = length (rtattr_bytes t d)"
    by (simp add: length_rtattr_bytes RTA_ALIGN_add)
  have ge: "int (4 + length d) \<le> int (length (rtattr_bytes t d)) + len'"
    using len RTA_ALIGN_ge[of "length d"] by (simp add: length_rtattr_bytes)
  show ?thesis
    apply (subst parse_rtattr_loop.simps)
    using ge len
    apply (simp only: rta_len_rtattr_bytes rta_type_rtattr_bytes option.case l a Let_def t)
    apply (simp add: tb_upd_def)
    done
qed

lemma parse_rtattr_loop_opt_attr:
  assumes d: "length d < 65532"
    and t: "unat ((of_nat t :: u16) AND NOT flgs) = t"
    and len: "0 \<le> len'"
  shows "parse_rtattr_loop mx flgs tb (opt_attr c t d @ r) (int (length (opt_attr c t d)) + len')
       = parse_rtattr_loop mx flgs (tb_upd mx c t (rtattr_bytes t d @ r) tb) r len'"
proof (cases c)
  case True
  then show ?thesis using parse_rtattr_loop_attr[OF assms] by (simp add: opt_attr_def)
next
  case False
  then show ?thesis by (simp add: opt_attr_def tb_upd_def)
qed

lemma tb_upd_apply:
  "tb_upd mx c t p tb t' = (if t' = t \<and> c \<and> t \<le> mx \<and> tb t = None then Some p else tb t')"
  by (simp add: tb_upd_def)


lemma unmask_tag: "t \<le> 8 \<Longrightarrow> unat ((of_nat t :: u16) AND NOT NLA_F_NESTED) = t"
proof -
  assume "t \<le> 8"
  then consider "t = 0" | "t = 1" | "t = 2" | "t = 3" | "t = 4" | "t = 5" | "t = 6" | "t = 7" | "t = 8"
    by linarith
  then show ?thesis by cases (simp_all add: NLA_F_NESTED_def)
qed

lemma parse_block_body:
  fixes v :: opts and r :: "byte list"
  shows "\<exists>tb r1 r2 r3 r4 r5 r6 r7 r8.
     parse_rtattr_loop TCA_AIFO_MAX NLA_F_NESTED (\<lambda>_. None) (block_body v @ r)
        (int (length (block_body v))) = Some tb
   \<and> tb TCA_AIFO_PLIMIT = (if plimit v \<noteq> 0xFFFFFFFF
        then Some (rtattr_bytes TCA_AIFO_PLIMIT (u32_bytes (plimit v)) @ r1) else None)
   \<and> tb TCA_AIFO_BURST = (if burst v \<noteq> 0xFFFFFFFF
        then Some (rtattr_bytes TCA_AIFO_BURST (u32_bytes (burst v)) @ r2) else None)
   \<and> tb TCA_AIFO_BUCKETS_LOG = (if buckets v \<noteq> 0
        then Some (rtattr_bytes TCA_AIFO_BUCKETS_LOG (u32_bytes (ilog2 (buckets v))) @ r3) else None)
   \<and> tb TCA_AIFO_HASH_MASK = (if hash_mask v \<noteq> 0
        then Some (rtattr_bytes TCA_AIFO_HASH_MASK (u32_bytes (hash_mask v)) @ r4) else None)
   \<and> tb TCA_AIFO_FLOW_PLIMIT = (if flow_plimit v \<noteq> 0xFFFFFFFF
        then Some (rtattr_bytes TCA_AIFO_FLOW_PLIMIT (u32_bytes (flow_plimit v)) @ r5) else None)
   \<and> tb TCA_AIFO_SAMPLE_SIZE = (if sample_size v \<noteq> 0xFFFF
        then Some (rtattr_bytes TCA_AIFO_SAMPLE_SIZE (u16_bytes (sample_size v)) @ r6) else None)
   \<and> tb TCA_AIFO_SAMPLE_PERIOD = (if sample_period v \<noteq> 0xFFFF
        then Some (rtattr_bytes TCA_AIFO_SAMPLE_PERIOD (u16_bytes (sample_period v)) @ r7) else None)
   \<and> tb TCA_AIFO_FLAGS = (if flags_upd v
        then Some (rtattr_bytes TCA_AIFO_FLAGS (u32_bytes (flags v)) @ r8) else None)"
proof -
  let ?P = "parse_rtattr_loop TCA_AIFO_MAX NLA_F_NESTED"
  define b8 where "b8 = opt_attr (flags_upd v) TCA_AIFO_FLAGS (u32_bytes (flags v))"
  define b7 where "b7 = opt_attr (sample_period v \<noteq> 0xFFFF) TCA_AIFO_SAMPLE_PERIOD (u16_bytes (sample_period v))"
  define b6 where "b6 = opt_attr (sample_size v \<noteq> 0xFFFF) TCA_AIFO_SAMPLE_SIZE (u16_bytes (sample_size v))"
  define b5 where "b5 = opt_attr (flow_plimit v \<noteq> 0xFFFFFFFF) TCA_AIFO_FLOW_PLIMIT (u32_bytes (flow_plimit v))"
  define b4 where "b4 = opt_attr (hash_mask v \<noteq> 0) TCA_AIFO_HASH_MASK (u32_bytes (hash_mask v))"
  define b3 where "b3 = opt_attr (buckets v \<noteq> 0) TCA_AIFO_BUCKETS_LOG (u32_bytes (ilog2 (buckets v)))"
  define b2 where "b2 = opt_attr (burst v \<noteq> 0xFFFFFFFF) TCA_AIFO_BURST (u32_bytes (burst v))"
  define b1 where "b1 = opt_attr (plimit v \<noteq> 0xFFFFFFFF) TCA_AIFO_PLIMIT (u32_bytes (plimit v))"
  note bdefs = b1_def b2_def b3_def b4_def b5_def b6_def b7_def b8_def
  define r8 where "r8 = r"
  define r7 where "r7 = b8 @ r8"
  define r6 where "r6 = b7 @ r7"
  define r5 where "r5 = b6 @ r6"
  define r4 where "r4 = b5 @ r5"
  define r3 where "r3 = b4 @ r4"
  define r2 where "r2 = b3 @ r3"
  define r1 where "r1 = b2 @ r2"
  note rdefs = r1_def r2_def r3_def r4_def r5_def r6_def r7_def r8_def
  define t0 :: rtattr_tb where "t0 = (\<lambda>_. None)"
  define t1 where "t1 = tb_upd TCA_AIFO_MAX (plimit v \<noteq> 0xFFFFFFFF) TCA_AIFO_PLIMIT
      (rtattr_bytes TCA_AIFO_PLIMIT (u32_bytes (plimit v)) @ r1) t0"
  define t2 where "t2 = tb_upd TCA_AIFO_MAX (burst v \<noteq> 0xFFFFFFFF) TCA_AIFO_BURST
      (rtattr_bytes TCA_AIFO_BURST (u32_bytes (burst v)) @ r2) t1"
  define t3 where "t3 = tb_upd TCA_AIFO_MAX (buckets v \<noteq> 0) TCA_AIFO_BUCKETS_LOG
      (rtattr_bytes TCA_AIFO_BUCKETS_LOG (u32_bytes (ilog2 (buckets v))) @ r3) t2"
  define t4 where "t4 = tb_upd TCA_AIFO_MAX (hash_mask v \<noteq> 0) TCA_AIFO_HASH_MASK
      (rtattr_bytes TCA_AIFO_HASH_MASK (u32_bytes (hash_mask v)) @ r4) t3"
  define t5 where "t5 = tb_upd TCA_AIFO_MAX (flow_plimit v \<noteq> 0xFFFFFFFF) TCA_AIFO_FLOW_PLIMIT
      (rtattr_bytes TCA_AIFO_FLOW_PLIMIT (u32_bytes (flow_plimit v)) @ r5) t4"
  define t6 where "t6 = tb_upd TCA_AIFO_MAX (sample_size v \<noteq> 0xFFFF) TCA_AIFO_SAMPLE_SIZE
      (rtattr_bytes TCA_AIFO_SAMPLE_SIZE (u16_bytes (sample_size v)) @ r6) t5"
  define t7 where "t7 = tb_upd TCA_AIFO_MAX (sample_period v \<noteq> 0xFFFF) TCA_AIFO_SAMPLE_PERIOD
      (rtattr_bytes TCA_AIFO_SAMPLE_PERIOD (u16_bytes (sample_period v)) @ r7) t6"
  define t8 where "t8 = tb_upd TCA_AIFO_MAX (flags_upd v) TCA_AIFO_FLAGS
      (rtattr_bytes TCA_AIFO_FLAGS (u32_bytes (flags v)) @ r8) t7"
  note tdefs = t8_def t7_def t6_def t5_def t4_def t3_def t2_def t1_def t0_def
  have body: "block_body v @ r = b1 @ r1"
    by (simp add: block_body_def bdefs rdefs)
  have len: "int (length (block_body v)) = int (length b1) + (int (length b2) + (int (length b3)
      + (int (length b4) + (int (length b5) + (int (length b6) + (int (length b7)
      + (int (length b8) + 0)))))))"
    by (simp add: block_body_def bdefs)
  have tags: "unat ((of_nat TCA_AIFO_PLIMIT :: u16) AND NOT NLA_F_NESTED) = TCA_AIFO_PLIMIT"
    "unat ((of_nat TCA_AIFO_BURST :: u16) AND NOT NLA_F_NESTED) = TCA_AIFO_BURST"
    "unat ((of_nat TCA_AIFO_BUCKETS_LOG :: u16) AND NOT NLA_F_NESTED) = TCA_AIFO_BUCKETS_LOG"
    "unat ((of_nat TCA_AIFO_HASH_MASK :: u16) AND NOT NLA_F_NESTED) = TCA_AIFO_HASH_MASK"
    "unat ((of_nat TCA_AIFO_FLOW_PLIMIT :: u16) AND NOT NLA_F_NESTED) = TCA_AIFO_FLOW_PLIMIT"
    "unat ((of_nat TCA_AIFO_SAMPLE_SIZE :: u16) AND NOT NLA_F_NESTED) = TCA_AIFO_SAMPLE_SIZE"
    "unat ((of_nat TCA_AIFO_SAMPLE_PERIOD :: u16) AND NOT NLA_F_NESTED) = TCA_AIFO_SAMPLE_PERIOD"
    "unat ((of_nat TCA_AIFO_FLAGS :: u16) AND NOT NLA_F_NESTED) = TCA_AIFO_FLAGS"
    by (rule unmask_tag, simp add: tca_defs)+
  have "?P t0 (b1 @ r1) (int (length b1) + (int (length b2) + (int (length b3)
      + (int (length b4) + (int (length b5) + (int (length b6) + (int (length b7)
      + (int (length b8) + 0)))))))) = ?P t1 r1 (int (length b2) + (int (length b3)
      + (int (length b4) + (int (length b5) + (int (length b6) + (int (length b7)
      + (int (length b8) + 0)))))))"
    unfolding b1_def t1_def by (rule parse_rtattr_loop_opt_attr) (simp_all add: tags)
  also have "\<dots> = ?P t2 r2 (int (length b3)
      + (int (length b4) + (int (length b5) + (int (length b6) + (int (length b7)
      + (int (length b8) + 0))))))"
    unfolding r1_def b2_def t2_def by (rule parse_rtattr_loop_opt_attr) (simp_all add: tags)
  also have "\<dots> = ?P t3 r3 (int (length b4) + (int (length b5) + (int (length b6) + (int (length b7)
      + (int (length b8) + 0)))))"
    unfolding r2_def b3_def t3_def by (rule parse_rtattr_loop_opt_attr) (simp_all add: tags)
  also have "\<dots> = ?P t4 r4 (int (length b5) + (int (length b6) + (int (length b7)
      + (int (length b8) + 0))))"
    unfolding r3_def b4_def t4_def by (rule parse_rtattr_loop_opt_attr) (simp_all add: tags)
  also have "\<dots> = ?P t5 r5 (int (length b6) + (int (length b7) + (int (length b8) + 0)))"
    unfolding r4_def b5_def t5_def by (rule parse_rtattr_loop_opt_attr) (simp_all add: tags)
  also have "\<dots> = ?P t6 r6 (int (length b7) + (int (length b8) + 0))"
    unfolding r5_def b6_def t6_def by (rule parse_rtattr_loop_opt_attr) (simp_all add: tags)
  also have "\<dots> = ?P t7 r7 (int (length b8) + 0)"
    unfolding r6_def b7_def t7_def by (rule parse_rtattr_loop_opt_attr) (simp_all add: tags)
  also have "\<dots> = ?P t8 r8 0"
    unfolding r7_def b8_def t8_def by (rule parse_rtattr_loop_opt_attr) (simp_all add: tags)
  also have "\<dots> = Some t8"
    by (simp add: parse_rtattr_loop.simps)
  finally have p: "?P (\<lambda>_. None) (block_body v @ r) (int (length (block_body v))) = Some t8"
    unfolding body len t0_def .
  have l1: "t8 TCA_AIFO_PLIMIT = (if plimit v \<noteq> 0xFFFFFFFF
        then Some (rtattr_bytes TCA_AIFO_PLIMIT (u32_bytes (plimit v)) @ r1) else None)"
    by (simp add: tdefs tb_upd_apply tca_defs)
  have l2: "t8 TCA_AIFO_BURST = (if burst v \<noteq> 0xFFFFFFFF
        then Some (rtattr_bytes TCA_AIFO_BURST (u32_bytes (burst v)) @ r2) else None)"
    by (simp add: tdefs tb_upd_apply tca_defs)
  have l3: "t8 TCA_AIFO_BUCKETS_LOG = (if buckets v \<noteq> 0
        then Some (rtattr_bytes TCA_AIFO_BUCKETS_LOG (u32_bytes (ilog2 (buckets v))) @ r3) else None)"
    by (simp add: tdefs tb_upd_apply tca_defs)
  have l4: "t8 TCA_AIFO_HASH_MASK = (if hash_mask v \<noteq> 0
        then Some (rtattr_bytes TCA_AIFO_HASH_MASK (u32_bytes (hash_mask v)) @ r4) else None)"
    by (simp add: tdefs tb_upd_apply tca_defs)
  have l5: "t8 TCA_AIFO_FLOW_PLIMIT = (if flow_plimit v \<noteq> 0xFFFFFFFF
        then Some (rtattr_bytes TCA_AIFO_FLOW_PLIMIT (u32_bytes (flow_plimit v)) @ r5) else None)"
    by (simp add: tdefs tb_upd_apply tca_defs)
  have l6: "t8 TCA_AIFO_SAMPLE_SIZE = (if sample_size v \<noteq> 0xFFFF
        then Some (rtattr_bytes TCA_AIFO_SAMPLE_SIZE (u16_bytes (sample_size v)) @ r6) else None)"
    by (simp add: tdefs tb_upd_apply tca_defs)
  have l7: "t8 TCA_AIFO_SAMPLE_PERIOD = (if sample_period v \<noteq> 0xFFFF
        then Some (rtattr_bytes TCA_AIFO_SAMPLE_PERIOD (u16_bytes (sample_period v)) @ r7) else None)"
    by (simp add: tdefs tb_upd_apply tca_defs)
  have l8: "t8 TCA_AIFO_FLAGS = (if flags_upd v
        then Some (rtattr_bytes TCA_AIFO_FLAGS (u32_bytes (flags v)) @ r8) else None)"
    by (simp add: tdefs tb_upd_apply tca_defs)
  from p l1 l2 l3 l4 l5 l6 l7 l8 show ?thesis by blast
qed

subsection \<open>What \<^verbatim>\<open>ilog2\<close> computes\<close>

declare bitlen.simps [simp del]

lemma bitlen_less: "n < 2 ^ bitlen n"
proof (induction n rule: bitlen.induct)
  case (1 n)
  show ?case
  proof (cases "n = 0")
    case True
    then show ?thesis by (simp add: bitlen.simps)
  next
    case False
    with 1 have "n div 2 < 2 ^ bitlen (n div 2)" by simp
    then have "n < 2 * 2 ^ bitlen (n div 2)" by linarith
    with False show ?thesis by (simp add: bitlen.simps[of n])
  qed
qed

lemma bitlen_le: "n < 2 ^ k \<Longrightarrow> bitlen n \<le> k"
proof (induction n arbitrary: k rule: bitlen.induct)
  case (1 n)
  show ?case
  proof (cases "n = 0")
    case True
    then show ?thesis by (simp add: bitlen.simps)
  next
    case False
    with "1.prems" obtain j where k: "k = Suc j" by (cases k) auto
    with "1.prems" have "n div 2 < 2 ^ j" by simp
    with 1 False have "bitlen (n div 2) \<le> j" by simp
    with False k show ?thesis by (simp add: bitlen.simps[of n])
  qed
qed

lemma Least_pow2_bitlen:
  assumes "1 \<le> m"
  shows "(LEAST k. m \<le> 2 ^ k) = bitlen (m - 1)"
proof (rule Least_equality)
  from assms bitlen_less[of "m - 1"] show "m \<le> 2 ^ bitlen (m - 1)" by linarith
next
  fix k :: nat assume "m \<le> 2 ^ k"
  with assms have "m - 1 < 2 ^ k" by linarith
  then show "bitlen (m - 1) \<le> k" by (rule bitlen_le)
qed

lemma unat_ilog2_loop:
  "unat res + bitlen (unat val) < 2 ^ 32 \<Longrightarrow> unat (ilog2_loop val res) = unat res + bitlen (unat val)"
proof (induction val res rule: ilog2_loop.induct)
  case (1 val res)
  show ?case
  proof (cases "val = 0")
    case True
    then show ?thesis by (simp add: bitlen.simps ilog2_loop.simps)
  next
    case False
    then have nz: "unat val \<noteq> 0" by (simp add: unat_eq_zero)
    then have b: "bitlen (unat val) = Suc (bitlen (unat val div 2))"
      by (simp add: bitlen.simps[of "unat val"])
    have d: "unat (drop_bit 1 val) = unat val div 2"
      by (simp add: drop_bit_eq_div unat_div)
    from "1.prems" b have "unat res + 1 < 2 ^ 32" by simp
    then have r: "unat (res + 1) = unat res + 1"
      by (simp add: unat_word_ariths)
    from "1.prems" b r d have "unat (res + 1) + bitlen (unat (drop_bit 1 val)) < 2 ^ 32" by simp
    with "1.IH" False have "unat (ilog2_loop (drop_bit 1 val) (res + 1))
        = unat (res + 1) + bitlen (unat (drop_bit 1 val))" by simp
    with False b r d show ?thesis by (simp add: ilog2_loop.simps[of val])
  qed
qed

lemma unat_ilog2:
  assumes "v \<noteq> 0"
  shows "unat (ilog2 v) = bitlen (unat v - 1)"
proof -
  from assms have "1 \<le> v" by (simp add: word_le_nat_alt unat_eq_zero Suc_le_eq unat_gt_0)
  then have u: "unat (v - 1) = unat v - 1" by (simp add: unat_sub)
  have "unat (v - 1) < 2 ^ 32" using unsigned_less[of "v - 1", where 'a = nat] by simp
  then have "bitlen (unat (v - 1)) \<le> 32" by (rule bitlen_le)
  then have "unat (0 :: u32) + bitlen (unat (v - 1)) < 2 ^ 32" by simp
  then show ?thesis using unat_ilog2_loop[of 0 "v - 1"] by (simp add: ilog2_def u)
qed

lemma ilog2_Least:
  assumes "v \<noteq> 0"
  shows "unat (ilog2 v) = (LEAST k. unat v \<le> 2 ^ k)"
proof -
  from assms have "1 \<le> unat v" by (simp add: unat_eq_zero Suc_le_eq unat_gt_0)
  then show ?thesis using unat_ilog2[OF assms] by (simp add: Least_pow2_bitlen)
qed

lemma ilog2_le_31:
  assumes "v \<noteq> 0" and "unat v \<le> 2 ^ 31"
  shows "ilog2 v < 32"
proof -
  from assms have "unat v - 1 < 2 ^ 31" by (simp add: unat_eq_zero)
  then have "bitlen (unat v - 1) \<le> 31" by (rule bitlen_le)
  then have "unat (ilog2 v) < unat (32 :: u32)" using unat_ilog2[OF assms(1)] by simp
  then show ?thesis by (simp only: word_less_nat_alt)
qed

lemma shl_1U_ilog2:
  assumes "v \<noteq> 0" and "unat v \<le> 2 ^ 31"
  shows "shl_1U (ilog2 v) = Some (push_bit (unat (ilog2 v)) 1)"
  using ilog2_le_31[OF assms] by (simp add: shl_1U_def)

subsection \<open>The payload length as the macros compute it\<close>

lemma is_up_u16_u64: "is_up (ucast :: u16 \<Rightarrow> u64)"
  by (simp add: is_up)

lemma sint_payload: "sint (ucast ((ucast (l :: u16) :: u64) - 4) :: u32) = uint l - 4"
proof -
  have b: "0 \<le> uint l" "uint l < 65536" using uint_bounded[of l] by simp_all
  have "(ucast l :: u64) - 4 = word_of_int (uint l - 4)"
    by (simp only: ucast_eq wi_hom_sub[symmetric] word_of_int_numeral)
  moreover have "(ucast (word_of_int (uint l - 4) :: u64) :: u32) = word_of_int (uint l - 4)"
    by (rule ucast_down_wi) (simp add: is_down)
  moreover have "sint (word_of_int (uint l - 4) :: u32) = uint l - 4"
  proof -
    have "sint (word_of_int (uint l - 4) :: u32) = signed_take_bit (LENGTH(32) - 1) (uint l - 4)"
      by (rule sint_sbintrunc')
    also have "\<dots> = uint l - 4"
      unfolding signed_take_bit_int_eq_self_iff using b by simp
    finally show ?thesis .
  qed
  ultimately show ?thesis by (simp only:)
qed

lemma unat_ucast_u16_u64: "unat (ucast (l :: u16) :: u64) = unat l"
  unfolding unat_eq_nat_uint uint_up_ucast[OF is_up_u16_u64] ..

lemma unat_payload: "4 \<le> unat (l :: u16) \<Longrightarrow> unat ((ucast l :: u64) - 4) = unat l - 4"
proof -
  assume a: "4 \<le> unat l"
  have "unat (4 :: u64) \<le> unat (ucast l :: u64)"
    using a by (simp add: unat_ucast_u16_u64)
  then have "(4 :: u64) \<le> ucast l"
    by (simp only: word_le_nat_alt)
  then have "unat ((ucast l :: u64) - 4) = unat (ucast l :: u64) - unat (4 :: u64)"
    by (rule unat_sub)
  then show ?thesis by (simp add: unat_ucast_u16_u64)
qed

lemma RTA_PAYLOAD_rtattr_bytes:
  "length d < 65532 \<Longrightarrow> RTA_PAYLOAD (rtattr_bytes t d @ r) = Some (of_nat (length d))"
proof -
  assume d: "length d < 65532"
  have "unat (ucast (of_nat (4 + length d) :: u16) :: u64) = 4 + length d"
    using d by (simp add: unat_ucast_u16_u64 unat_of_nat_u16 del: of_nat_add)
  moreover have "unat (of_nat (4 + length d) :: u64) = 4 + length d"
    using d by (simp add: unat_of_nat del: of_nat_add)
  ultimately have "(ucast (of_nat (4 + length d) :: u16) :: u64) = of_nat (4 + length d)"
    by (simp only: word_unat_eq_iff)
  then have "(ucast (of_nat (4 + length d) :: u16) :: u64) = 4 + of_nat (length d)"
    by simp
  then show ?thesis
    by (simp add: RTA_PAYLOAD_def RTA_LENGTH_def RTA_ALIGN_def del: of_nat_add)
qed

subsection \<open>Printing what the encoder wrote\<close>

lemma rta_getattr_u32_bytes [simp]:
  "rta_getattr_u32 (rtattr_bytes t (u32_bytes x) @ r) = Some x"
  by (simp add: rta_getattr_u32_def zero_pad_def RTA_ALIGN_def)

lemma rta_getattr_u16_bytes [simp]:
  "rta_getattr_u16 (rtattr_bytes t (u16_bytes x) @ r) = Some x"
  by (simp add: rta_getattr_u16_def zero_pad_def RTA_ALIGN_def)

lemma if_attr_u32:
  "if_attr (if c then Some (rtattr_bytes t (u32_bytes x) @ r) else None) sizeof_u32 f
     = (if c then f (rtattr_bytes t (u32_bytes x) @ r) else Some [])"
  by (simp add: if_attr_def RTA_PAYLOAD_rtattr_bytes sizeof_u32_def)

lemma if_attr_u32_short:
  "if_attr (if c then Some (rtattr_bytes t (u32_bytes x) @ r) else None) sizeof_u16 f
     = (if c then f (rtattr_bytes t (u32_bytes x) @ r) else Some [])"
  by (simp add: if_attr_def RTA_PAYLOAD_rtattr_bytes sizeof_u16_def)

lemma if_attr_u16:
  "if_attr (if c then Some (rtattr_bytes t (u16_bytes x) @ r) else None) sizeof_u16 f
     = (if c then f (rtattr_bytes t (u16_bytes x) @ r) else Some [])"
  by (simp add: if_attr_def RTA_PAYLOAD_rtattr_bytes sizeof_u16_def)

lemma parse_rtattr_nested_block:
  "parse_rtattr_nested TCA_AIFO_MAX (nested_block v @ r)
     = parse_rtattr_loop TCA_AIFO_MAX NLA_F_NESTED (\<lambda>_. None) (block_body v @ r)
         (int (length (block_body v)))"
proof -
  have l: "4 + length (block_body v) < 65536"
    using length_block_body_le[of v] by simp
  have "rta_len (nested_block v @ r) = Some (of_nat (4 + length (block_body v)))"
    by (simp add: rta_len_def nested_block_def)
  moreover have "RTA_DATA (nested_block v @ r) = block_body v @ r"
    by (simp add: RTA_DATA_def nested_block_def RTA_LENGTH_def RTA_ALIGN_def)
  moreover have "sint (ucast ((ucast (of_nat (4 + length (block_body v)) :: u16) :: u64) - 4) :: u32)
      = int (length (block_body v))"
    using l by (simp add: sint_payload uint_of_nat_u16 del: of_nat_add)
  ultimately show ?thesis
    by (simp add: parse_rtattr_nested_def parse_rtattr_flags_def RTA_PAYLOAD_def RTA_LENGTH_def
        RTA_ALIGN_def del: of_nat_add)
qed

lemma aifo_print_opt_nested_block:
  assumes "buckets v \<noteq> 0 \<longrightarrow> unat (buckets v) \<le> 2 ^ 31"
  shows "aifo_print_opt (Some (nested_block v @ r)) = Some (0, block_items v)"
proof -
  obtain tb r1 r2 r3 r4 r5 r6 r7 r8 where
    p: "parse_rtattr_loop TCA_AIFO_MAX NLA_F_NESTED (\<lambda>_. None) (block_body v @ r)
        (int (length (block_body v))) = Some tb"
   and l: "tb TCA_AIFO_PLIMIT = (if plimit v \<noteq> 0xFFFFFFFF
        then Some (rtattr_bytes TCA_AIFO_PLIMIT (u32_bytes (plimit v)) @ r1) else None)"
    "tb TCA_AIFO_BURST = (if burst v \<noteq> 0xFFFFFFFF
        then Some (rtattr_bytes TCA_AIFO_BURST (u32_bytes (burst v)) @ r2) else None)"
    "tb TCA_AIFO_BUCKETS_LOG = (if buckets v \<noteq> 0
        then Some (rtattr_bytes TCA_AIFO_BUCKETS_LOG (u32_bytes (ilog2 (buckets v))) @ r3) else None)"
    "tb TCA_AIFO_HASH_MASK = (if hash_mask v \<noteq> 0
        then Some (rtattr_bytes TCA_AIFO_HASH_MASK (u32_bytes (hash_mask v)) @ r4) else None)"
    "tb TCA_AIFO_FLOW_PLIMIT = (if flow_plimit v \<noteq> 0xFFFFFFFF
        then Some (rtattr_bytes TCA_AIFO_FLOW_PLIMIT (u32_bytes (flow_plimit v)) @ r5) else None)"
    "tb TCA_AIFO_SAMPLE_SIZE = (if sample_size v \<noteq> 0xFFFF
        then Some (rtattr_bytes TCA_AIFO_SAMPLE_SIZE (u16_bytes (sample_size v)) @ r6) else None)"
    "tb TCA_AIFO_SAMPLE_PERIOD = (if sample_period v \<noteq> 0xFFFF
        then Some (rtattr_bytes TCA_AIFO_SAMPLE_PERIOD (u16_bytes (sample_period v)) @ r7) else None)"
    "tb TCA_AIFO_FLAGS = (if flags_upd v
        then Some (rtattr_bytes TCA_AIFO_FLAGS (u32_bytes (flags v)) @ r8) else None)"
    using parse_block_body[of v r] by blast
  have sh: "buckets v \<noteq> 0 \<Longrightarrow> shl_1U (ilog2 (buckets v)) = Some (push_bit (unat (ilog2 (buckets v))) 1)"
    using assms by (simp add: shl_1U_ilog2)
  show ?thesis
    unfolding aifo_print_opt_def option.case parse_rtattr_nested_block p bind.bind_lunit l
      if_attr_u32 if_attr_u32_short if_attr_u16
    by (simp add: block_items_def opt_item_def sh)
qed

subsection \<open>The whole encoder on a message with room\<close>

lemma aifo_parse_opt_layout:
  assumes "parse_args U opts_init argv = Inr v"
    and "NLMSG_ALIGN (length n) + 4 + length (block_body v) \<le> 1024"
  shows "aifo_parse_opt U argv n = (Inr 0, zero_pad (NLMSG_ALIGN (length n)) n @ nested_block v)"
  using assms by (simp add: aifo_parse_opt_def emit_opts_layout)

lemma drop_zero_pad_append:
  "drop (NLMSG_ALIGN (length n)) (zero_pad (NLMSG_ALIGN (length n)) n @ b) = b"
  using NLMSG_ALIGN_ge[of "length n"] by (simp add: zero_pad_def)

subsection \<open>The token loop, option by option\<close>

lemma help_not_flags [simp]: "\<not> strcasecmp_eq ''help'' ''flags''"
  by (simp add: strcasecmp_eq_def tolower_def)

lemma flags_is_flags [simp]: "strcasecmp_eq ''flags'' ''flags''"
  by (simp add: strcasecmp_eq_def)

lemma parse_args_limit:
  "parse_args U v (''limit'' # x # argv) =
     (case get_u32 U x of None \<Rightarrow> Inl (InvalidInteger ''limit'')
      | Some r \<Rightarrow> parse_args U (v\<lparr>plimit := r\<rparr>) argv)"
  by simp

lemma parse_args_buckets:
  "parse_args U v (''buckets'' # x # argv) =
     (case get_unsigned U x of None \<Rightarrow> Inl (InvalidInteger ''buckets'')
      | Some r \<Rightarrow> parse_args U (v\<lparr>buckets := r\<rparr>) argv)"
  by simp

lemma parse_args_burst:
  "parse_args U v (''burst'' # x # argv) =
     (case get_u32 U x of None \<Rightarrow> Inl (InvalidInteger ''burst'')
      | Some r \<Rightarrow> parse_args U (v\<lparr>burst := r\<rparr>) argv)"
  by simp

lemma parse_args_hash_mask:
  "parse_args U v (''hash_mask'' # x # argv) =
     (case get_u32 U x of None \<Rightarrow> Inl (InvalidInteger ''hash_mask'')
      | Some r \<Rightarrow> parse_args U (v\<lparr>hash_mask := r\<rparr>) argv)"
  by simp

lemma parse_args_flow_limit:
  "parse_args U v (''flow_limit'' # x # argv) =
     (case get_u32 U x of None \<Rightarrow> Inl (InvalidInteger ''flow_limit'')
      | Some r \<Rightarrow> parse_args U (v\<lparr>flow_plimit := r\<rparr>) argv)"
  by simp

lemma parse_args_samples:
  "parse_args U v (''samples'' # x # argv) =
     (case get_u16 U x of None \<Rightarrow> Inl (InvalidInteger ''samples'')
      | Some r \<Rightarrow> if r > AIFO_SAMPLE_SIZE_MAX then Inl ValueTooLarge
                  else parse_args U (v\<lparr>sample_size := r\<rparr>) argv)"
  by simp

lemma parse_args_speriod:
  "parse_args U v (''speriod'' # x # argv) =
     (case get_u16 U x of None \<Rightarrow> Inl (InvalidInteger ''speriod'')
      | Some r \<Rightarrow> parse_args U (v\<lparr>sample_period := r\<rparr>) argv)"
  by simp

lemma parse_args_flags:
  assumes "a \<notin> set value_options" and "strcasecmp_eq a ''flags''"
  shows "parse_args U v (a # x # argv) =
     (case get_unsigned U x of None \<Rightarrow> Inl (InvalidInteger ''flags'')
      | Some r \<Rightarrow> parse_args U (v\<lparr>flags := r, flags_upd := True\<rparr>) argv)"
  using assms by (simp add: value_options_def)

lemma parse_args_help: "parse_args U v (''help'' # argv) = Inl HelpRequested"
  by simp

lemma parse_args_unknown:
  assumes "a \<notin> set value_options" and "\<not> strcasecmp_eq a ''flags''" and "a \<noteq> ''help''"
  shows "parse_args U v (a # argv) = Inl (UnknownOption a)"
  using assms by (simp add: value_options_def)

lemma parse_args_missing:
  assumes "a \<in> set value_options \<or> strcasecmp_eq a ''flags''"
  shows "parse_args U v [a] = Inl MissingArgument"
  using assms by (auto simp add: value_options_def)

lemma option_cases:
  obtains "a = ''limit''" | "a = ''buckets''" | "a = ''burst''" | "a = ''hash_mask''"
  | "a = ''flow_limit''" | "a = ''samples''" | "a = ''speriod''"
  | "a \<notin> set value_options" "strcasecmp_eq a ''flags''"
  | "a = ''help''"
  | "a \<notin> set value_options" "\<not> strcasecmp_eq a ''flags''" "a \<noteq> ''help''"
  unfolding value_options_def by auto

lemma parse_args_append:
  "parse_args U v a = Inr v' \<Longrightarrow> parse_args U v (a @ b) = parse_args U v' b"
proof (induction a arbitrary: v rule: length_induct)
  case (1 a)
  show ?case
  proof (cases a)
    case Nil
    with "1.prems" show ?thesis by simp
  next
    case (Cons k rest)
    show ?thesis
    proof (cases rest)
      case Nil
      with Cons "1.prems" show ?thesis
        by (cases k rule: option_cases)
          (simp_all add: parse_args_missing parse_args_help parse_args_unknown value_options_def del: parse_args.simps)
    next
      case c: (Cons x rest')
      have ih: "\<And>w. parse_args U w rest' = Inr v' \<Longrightarrow> parse_args U w (rest' @ b) = parse_args U v' b"
        using "1.IH" Cons c by simp
      note st = parse_args_limit parse_args_buckets parse_args_burst parse_args_hash_mask
        parse_args_flow_limit parse_args_samples parse_args_speriod parse_args_flags
        parse_args_help parse_args_unknown
      from "1.prems" show ?thesis
        unfolding Cons c append_Cons
        by (cases k rule: option_cases)
          (auto simp add: st ih simp del: parse_args.simps split: option.splits if_splits)
    qed
  qed
qed

declare parse_args.simps(2) [simp del]

lemmas parse_args_steps = parse_args_limit parse_args_buckets parse_args_burst
  parse_args_hash_mask parse_args_flow_limit parse_args_samples parse_args_speriod
  parse_args_flags parse_args_help parse_args_unknown

declare parse_args_steps [simp]

lemma parse_args_fails_at:
  assumes "a \<in> set (option_names argv)" and "a \<notin> set value_options"
    and "\<not> strcasecmp_eq a ''flags''"
  shows "\<exists>e. parse_args U v argv = Inl e"
  using assms
proof (induction argv arbitrary: v rule: option_names.induct)
  case 1
  then show ?case by simp
next
  case (2 k)
  then show ?case
    by (cases "k = ''help''") simp_all
next
  case (3 k x argv)
  show ?case
  proof (cases "a = k")
    case True
    with 3 show ?thesis
      by (cases "k = ''help''") simp_all
  next
    case False
    with "3.prems" have "a \<in> set (option_names argv)" by simp
    with 3 have ih: "\<And>w. \<exists>e. parse_args U w argv = Inl e" by blast
    show ?thesis
      by (cases k rule: option_cases)
        (auto split: option.splits intro: ih)
  qed
qed

lemma aifo_parse_opt_fail:
  "parse_args U opts_init argv = Inl e \<Longrightarrow> aifo_parse_opt U argv n = (Inl e, n)"
  by (simp add: aifo_parse_opt_def)

lemma aifo_parse_opt_ok:
  "parse_args U opts_init argv = Inr v \<Longrightarrow> aifo_parse_opt U argv n = (Inr 0, emit_opts v n)"
  by (simp add: aifo_parse_opt_def)

lemma word_u16_le_1024: "(AIFO_SAMPLE_SIZE_MAX < (x :: u16)) = (1024 < unat x)"
  by (simp add: AIFO_SAMPLE_SIZE_MAX_def word_less_nat_alt)

lemma replicate_small:
  "replicate 1 x = [x]" "replicate 2 x = [x, x]" "replicate 3 x = [x, x, x]"
  by (simp_all add: numeral_2_eq_2 numeral_3_eq_3)


lemma aifo_parse_opt_cong:
  "parse_args U opts_init a = parse_args U opts_init b \<Longrightarrow> aifo_parse_opt U a n = aifo_parse_opt U b n"
  by (simp add: aifo_parse_opt_def)

lemma value_option_not_flags: "a \<in> set value_options \<Longrightarrow> \<not> strcasecmp_eq a ''flags''"
  by (auto simp add: value_options_def strcasecmp_eq_def tolower_def)

lemma parse_args_flags_upd:
  "parse_args U v0 argv = Inr v \<Longrightarrow>
     flags_upd v = (flags_upd v0 \<or> (\<exists>a\<in>set (option_names argv). strcasecmp_eq a ''flags''))"
proof (induction argv arbitrary: v0 rule: option_names.induct)
  case 1
  then show ?case by simp
next
  case (2 k)
  then show ?case
    by (cases k rule: option_cases) (simp_all add: parse_args_missing value_options_def)
next
  case (3 k x argv)
  have nf: "k \<in> set value_options \<Longrightarrow> \<not> strcasecmp_eq k ''flags''"
    by (rule value_option_not_flags)
  from "3.prems" show ?case
    by (cases k rule: option_cases)
      (use nf in \<open>auto simp add: value_options_def split: option.splits if_splits dest!: "3.IH"\<close>)
qed

lemma flags_key_in_block_items:
  "(''flags'' \<in> item_key ` set (block_items v)) = flags_upd v"
  by (auto simp add: block_items_def opt_item_def)

lemma aifo_round_trip:
  assumes "parse_args U opts_init argv = Inr v"
    and "NLMSG_ALIGN (length n) + 4 + length (block_body v) \<le> 1024"
    and "buckets v \<noteq> 0 \<longrightarrow> unat (buckets v) \<le> 2 ^ 31"
  shows "aifo_print_opt (Some (drop (NLMSG_ALIGN (length n)) (snd (aifo_parse_opt U argv n))))
      = Some (0, block_items v)"
  unfolding aifo_parse_opt_layout[OF assms(1,2)] snd_conv drop_zero_pad_append
  using aifo_print_opt_nested_block[OF assms(3), of "[]"] by simp

lemma parse_args_swap:
  assumes "parse_args U v (k1 # x1 # k2 # x2 # post) = Inr w"
    and "k1 \<noteq> k2" and "\<not> (strcasecmp_eq k1 ''flags'' \<and> strcasecmp_eq k2 ''flags'')"
  shows "parse_args U v (k2 # x2 # k1 # x1 # post) = Inr w"
proof -
  obtain a b c d e f g h i where v: "v = \<lparr>plimit = a, burst = b, buckets = c, hash_mask = d,
      flow_plimit = e, sample_size = f, sample_period = g, flags = h, flags_upd = i\<rparr>"
    by (cases v)
  show ?thesis
    using assms unfolding v
    by (cases k1 rule: option_cases; cases k2 rule: option_cases)
      (auto simp add: value_options_def split: option.splits if_splits)
qed

lemma emit_opts_full_message:
  assumes "length n = 1020"
  shows "addattr_nest n 1024 TCA_OPTIONS = (1020, n @ [4, 0, 2, 0])
    \<and> addattr32 (n @ [4, 0, 2, 0]) 1024 TCA_AIFO_PLIMIT 1 = (- 1, n @ [4, 0, 2, 0])
    \<and> emit_opts (opts_init\<lparr>plimit := 1, burst := 2\<rparr>) n
      = n @ [12, 0, 2, 0, 8, 0, 2, 0, 2, 0, 0, 0]"
proof -
  note ev = addattr32_def addattr_l_def NLMSG_TAIL_def NLMSG_ALIGN_def RTA_ALIGN_def
    RTA_LENGTH_def zero_pad_def Let_def u16_bytes_def u32_bytes_def MAX_MSG_def tca_defs
    TCA_OPTIONS_def
  have nest: "addattr_nest n 1024 TCA_OPTIONS = (1020, n @ [4, 0, 2, 0])"
    using assms by (simp add: addattr_nest_def ev)
  have s1: "addattr32 (n @ [4, 0, 2, 0]) 1024 TCA_AIFO_PLIMIT 1 = (- 1, n @ [4, 0, 2, 0])"
    using assms by (simp add: ev)
  have s2: "addattr32 (n @ [4, 0, 2, 0]) MAX_MSG TCA_AIFO_BURST 2
      = (0, n @ [4, 0, 2, 0, 8, 0, 2, 0, 2, 0, 0, 0])"
    using assms by (simp add: ev)
  have fin: "addattr_nest_end (n @ [4, 0, 2, 0, 8, 0, 2, 0, 2, 0, 0, 0]) 1020
      = (1032, n @ [12, 0, 2, 0, 8, 0, 2, 0, 2, 0, 0, 0])"
    using assms
    by (simp add: addattr_nest_end_def store_u16_def NLMSG_TAIL_def NLMSG_ALIGN_def
        list_update_append Let_def)
  have "emit_opts (opts_init\<lparr>plimit := 1, burst := 2\<rparr>) n
      = n @ [12, 0, 2, 0, 8, 0, 2, 0, 2, 0, 0, 0]"
    by (simp add: emit_opts_def opts_init_def nest s1 s2 fin)
  with nest s1 show ?thesis by blast
qed

lemma store_u16_outside: "length m \<le> off \<Longrightarrow> store_u16 m off w = m"
  by (simp add: store_u16_def list_update_beyond)

lemma no_room_addattr32:
  assumes "maxlen \<le> MAX_MSG" and "MAX_MSG < NLMSG_ALIGN (length n) + 8"
  shows "snd (addattr32 n maxlen t x) = n"
  using assms by (simp add: addattr32_def addattr_l_def RTA_LENGTH_def RTA_ALIGN_def Let_def)

lemma no_room_addattr16:
  assumes "maxlen \<le> MAX_MSG" and "MAX_MSG < NLMSG_ALIGN (length n) + 8"
  shows "snd (addattr16 n maxlen t x) = n"
  using assms by (simp add: addattr16_def addattr_l_def RTA_LENGTH_def RTA_ALIGN_def Let_def)

lemma no_room_addattr_nest:
  assumes "MAX_MSG < NLMSG_ALIGN (length n) + 8"
  shows "addattr_nest n 1024 t = (NLMSG_ALIGN (length n), n)"
  using assms
  by (simp add: addattr_nest_def addattr_l_def RTA_LENGTH_def RTA_ALIGN_def NLMSG_TAIL_def
      MAX_MSG_def Let_def)

lemma no_room_addattr_nest_end:
  "snd (addattr_nest_end n (NLMSG_ALIGN (length n))) = n"
  using NLMSG_ALIGN_ge[of "length n"]
  by (simp add: addattr_nest_end_def store_u16_outside Let_def)

lemma emit_opts_no_room:
  assumes "MAX_MSG < NLMSG_ALIGN (length n) + 8"
  shows "emit_opts v n = n"
proof -
  have m: "(1024 :: nat) \<le> MAX_MSG" "MAX_MSG \<le> MAX_MSG"
    by (simp_all add: MAX_MSG_def)
  note a32 = no_room_addattr32[OF m(1) assms] no_room_addattr32[OF m(2) assms]
  note a16 = no_room_addattr16[OF m(2) assms]
  show ?thesis
    unfolding emit_opts_def no_room_addattr_nest[OF assms] prod.case Let_def a32 a16 if_cancel
      no_room_addattr_nest_end ..
qed

lemma load_u32_defined: "4 \<le> length xs \<Longrightarrow> \<exists>w. load_u32 xs = Some w"
  by (cases xs rule: load_u32.cases) simp_all


lemma load_u16_defined: "2 \<le> length xs \<Longrightarrow> \<exists>w. load_u16 xs = Some w"
  by (cases xs rule: load_u16.cases) simp_all


lemma RTA_PAYLOAD_rta_len: "rta_len rta = Some l \<Longrightarrow> RTA_PAYLOAD rta = Some (ucast l - 4)"
  by (simp add: RTA_PAYLOAD_def RTA_LENGTH_def RTA_ALIGN_def)



lemma RTA_ALIGN_mono: "a \<le> b \<Longrightarrow> RTA_ALIGN a \<le> RTA_ALIGN b"
  unfolding RTA_ALIGN_def by (simp add: div_le_mono)

lemma RTA_ALIGN_diff: "4 dvd a \<Longrightarrow> a \<le> b \<Longrightarrow> RTA_ALIGN (b - a) = RTA_ALIGN b - a"
  using RTA_ALIGN_add[of a "b - a"] by simp

lemma RTA_ALIGN_ge4: "4 \<le> k \<Longrightarrow> 4 \<le> RTA_ALIGN k"
  using RTA_ALIGN_ge[of k] by simp

lemma uint_ge4_unat: "4 \<le> uint (l :: u16) \<Longrightarrow> 4 \<le> unat l"
proof -
  assume "4 \<le> uint l"
  then have "(4 :: u16) \<le> l" by (simp add: word_le_def)
  then show ?thesis by (simp add: word_le_nat_alt)
qed

lemma parse_rtattr_loop_in_buffer:
  assumes "len < 4 \<or> RTA_ALIGN (nat len) \<le> length p"
    and "\<forall>t a. tb t = Some a \<longrightarrow> attr_in_buffer a"
  shows "\<exists>tb'. parse_rtattr_loop mx flgs tb p len = Some tb'
           \<and> (\<forall>t a. tb' t = Some a \<longrightarrow> attr_in_buffer a)"
  using assms
proof (induction mx flgs tb p len rule: parse_rtattr_loop.induct)
  case (1 mx flgs tb rta len)
  show ?case
  proof (cases "len < 4")
    case True
    with "1.prems" show ?thesis
      by (simp add: parse_rtattr_loop.simps[of mx flgs tb rta len])
  next
    case False
    with "1.prems" have ln: "RTA_ALIGN (nat len) \<le> length rta" by simp
    from False have "4 \<le> nat len" by simp
    then have "4 \<le> RTA_ALIGN (nat len)" by (rule RTA_ALIGN_ge4)
    with ln have l4: "4 \<le> length rta" by simp
    then obtain l where l: "rta_len rta = Some l"
      using load_u16_defined[of rta] by (auto simp add: rta_len_def)
    show ?thesis
    proof (cases "4 \<le> uint l \<and> uint l \<le> len")
      case no: False
      with False l "1.prems" show ?thesis
        by (simp add: parse_rtattr_loop.simps[of mx flgs tb rta len])
    next
      case ok: True
      from l4 have "2 \<le> length (drop 2 rta)" by simp
      then obtain t where t: "rta_type rta = Some t"
        using load_u16_defined[of "drop 2 rta"] unfolding rta_type_def by blast
      define type where "type = unat (t AND NOT flgs)"
      define tb' where "tb' = (if type \<le> mx \<and> tb type = None then tb(type \<mapsto> rta) else tb)"
      define a where "a = RTA_ALIGN (unat l)"
      from ok have ul: "4 \<le> unat l" by (simp add: uint_ge4_unat)
      have "unat l = nat (uint l)" by (rule unat_eq_nat_uint)
      with ok have ule: "unat l \<le> nat len" by linarith
      have a_le: "a \<le> RTA_ALIGN (nat len)"
        unfolding a_def using ule by (rule RTA_ALIGN_mono)
      have here: "attr_in_buffer rta"
        using l ul a_le ln by (simp add: attr_in_buffer_def a_def)
      have tbok: "\<forall>t a. tb' t = Some a \<longrightarrow> attr_in_buffer a"
        using "1.prems"(2) here by (auto simp add: tb'_def)
      have inv: "len - int a < 4 \<or> RTA_ALIGN (nat (len - int a)) \<le> length (drop a rta)"
      proof (cases "len - int a < 4")
        case True
        then show ?thesis by simp
      next
        case f: False
        then have ale: "a \<le> nat len" by simp
        have "RTA_ALIGN (nat len - a) = RTA_ALIGN (nat len) - a"
          using ale by (intro RTA_ALIGN_diff) (simp_all add: a_def)
        moreover have "nat (len - int a) = nat len - a"
          using ale by simp
        ultimately have "RTA_ALIGN (nat (len - int a)) = RTA_ALIGN (nat len) - a" by simp
        moreover have "RTA_ALIGN (nat len) - a \<le> length rta - a"
          using ln by (rule diff_le_mono)
        ultimately show ?thesis by simp
      qed
      have nn: "\<not> \<not> (4 \<le> uint l \<and> uint l \<le> len)" using ok by simp
      have "\<exists>tb''. parse_rtattr_loop mx flgs tb' (drop a rta) (len - int a) = Some tb''
           \<and> (\<forall>t a. tb'' t = Some a \<longrightarrow> attr_in_buffer a)"
        unfolding a_def
        by (rule "1.IH"[OF False l nn t type_def tb'_def inv[unfolded a_def] tbok])
      moreover have "parse_rtattr_loop mx flgs tb rta len
          = parse_rtattr_loop mx flgs tb' (drop a rta) (len - int a)"
        using False l ok t
        by (simp add: parse_rtattr_loop.simps[of mx flgs tb rta len] Let_def type_def tb'_def a_def)
      ultimately show ?thesis by simp
    qed
  qed
qed


lemma attr_payload_wide:
  assumes "attr_in_buffer a" and "RTA_PAYLOAD a = Some pl" and "w \<le> pl" and "2 \<le> w"
  shows "8 \<le> length a"
proof -
  from assms(1) obtain l where l: "rta_len a = Some l" "4 \<le> unat l" "RTA_ALIGN (unat l) \<le> length a"
    by (auto simp add: attr_in_buffer_def split: option.splits)
  from l(1) assms(2) have pl: "pl = ucast l - 4" by (simp add: RTA_PAYLOAD_rta_len)
  from assms(3,4) have "2 \<le> pl" by simp
  then have "unat (2 :: u64) \<le> unat pl" by (simp only: word_le_nat_alt)
  then have "2 \<le> unat l - 4" using l(2) by (simp add: pl unat_payload)
  then have "6 \<le> unat l" by simp
  then have "RTA_ALIGN 6 \<le> RTA_ALIGN (unat l)" by (rule RTA_ALIGN_mono)
  then have "8 \<le> RTA_ALIGN (unat l)" by (simp add: RTA_ALIGN_def)
  with l(3) show ?thesis by simp
qed

lemma attr_payload_defined: "attr_in_buffer a \<Longrightarrow> \<exists>pl. RTA_PAYLOAD a = Some pl"
  by (auto simp add: attr_in_buffer_def RTA_PAYLOAD_def split: option.splits)

lemma rta_getattr_u32_defined: "8 \<le> length a \<Longrightarrow> \<exists>v. rta_getattr_u32 a = Some v"
  unfolding rta_getattr_u32_def RTA_DATA_def RTA_LENGTH_def RTA_ALIGN_def
  by (rule load_u32_defined) simp

lemma rta_getattr_u16_defined: "8 \<le> length a \<Longrightarrow> \<exists>v. rta_getattr_u16 a = Some v"
  unfolding rta_getattr_u16_def RTA_DATA_def RTA_LENGTH_def RTA_ALIGN_def
  by (rule load_u16_defined) simp

lemma if_attr_defined:
  assumes "\<forall>a. x = Some a \<longrightarrow> attr_in_buffer a" and "2 \<le> w"
    and "\<forall>a. 8 \<le> length a \<longrightarrow> (\<exists>out. f a = Some out)"
  shows "\<exists>out. if_attr x w f = Some out"
proof (cases x)
  case None
  then show ?thesis by (simp add: if_attr_def)
next
  case (Some a)
  with assms(1) have ib: "attr_in_buffer a" by simp
  then obtain pl where pl: "RTA_PAYLOAD a = Some pl" using attr_payload_defined by blast
  show ?thesis
  proof (cases "w \<le> pl")
    case True
    from ib pl True assms(2) have "8 \<le> length a" by (rule attr_payload_wide)
    with assms(3) obtain out where "f a = Some out" by blast
    with Some pl True show ?thesis by (simp add: if_attr_def)
  next
    case False
    with Some pl show ?thesis by (simp add: if_attr_def)
  qed
qed

lemma if_attr_read_u32:
  assumes "\<forall>a. x = Some a \<longrightarrow> attr_in_buffer a" and "2 \<le> w"
  shows "\<exists>out. if_attr x w (\<lambda>a. do { v \<leftarrow> rta_getattr_u32 a; Some (g v) }) = Some out"
proof (rule if_attr_defined[OF assms], intro allI impI)
  fix a :: "byte list"
  assume "8 \<le> length a"
  then obtain v where "rta_getattr_u32 a = Some v" using rta_getattr_u32_defined by blast
  then show "\<exists>out. do { v \<leftarrow> rta_getattr_u32 a; Some (g v) } = Some out" by simp
qed

lemma if_attr_read_u16:
  assumes "\<forall>a. x = Some a \<longrightarrow> attr_in_buffer a" and "2 \<le> w"
  shows "\<exists>out. if_attr x w (\<lambda>a. do { v \<leftarrow> rta_getattr_u16 a; Some (g v) }) = Some out"
proof (rule if_attr_defined[OF assms], intro allI impI)
  fix a :: "byte list"
  assume "8 \<le> length a"
  then obtain v where "rta_getattr_u16 a = Some v" using rta_getattr_u16_defined by blast
  then show "\<exists>out. do { v \<leftarrow> rta_getattr_u16 a; Some (g v) } = Some out" by simp
qed

lemma if_attr_shift:
  assumes "\<forall>a. x = Some a \<longrightarrow> attr_in_buffer a" and "2 \<le> w"
  shows "(\<exists>out. if_attr x w (\<lambda>a. do { k \<leftarrow> rta_getattr_u32 a; b \<leftarrow> shl_1U k; Some (g b) }) = Some out)
       \<or> (if_attr x w (\<lambda>a. do { k \<leftarrow> rta_getattr_u32 a; b \<leftarrow> shl_1U k; Some (g b) }) = None
          \<and> (\<exists>a pl k. x = Some a \<and> RTA_PAYLOAD a = Some pl \<and> w \<le> pl
                \<and> rta_getattr_u32 a = Some k \<and> 32 \<le> k))"
proof (cases x)
  case None
  then show ?thesis by (simp add: if_attr_def)
next
  case (Some a)
  with assms(1) have ib: "attr_in_buffer a" by simp
  then obtain pl where pl: "RTA_PAYLOAD a = Some pl" using attr_payload_defined by blast
  show ?thesis
  proof (cases "w \<le> pl")
    case True
    from ib pl True assms(2) have "8 \<le> length a" by (rule attr_payload_wide)
    then obtain k where k: "rta_getattr_u32 a = Some k" using rta_getattr_u32_defined by blast
    show ?thesis
    proof (cases "k < 32")
      case lt: True
      with Some pl True k show ?thesis by (simp add: if_attr_def shl_1U_def)
    next
      case ge: False
      then have "32 \<le> k" by simp
      with ge Some pl True k show ?thesis by (simp add: if_attr_def shl_1U_def)
    qed
  next
    case False
    with Some pl show ?thesis by (simp add: if_attr_def)
  qed
qed

lemma parse_rtattr_nested_in_buffer:
  assumes "attr_in_buffer rta"
  shows "\<exists>tb. parse_rtattr_nested mx rta = Some tb \<and> (\<forall>t a. tb t = Some a \<longrightarrow> attr_in_buffer a)"
proof -
  from assms obtain l where l: "rta_len rta = Some l" "4 \<le> unat l" "RTA_ALIGN (unat l) \<le> length rta"
    by (auto simp add: attr_in_buffer_def split: option.splits)
  have "unat l = nat (uint l)" by (rule unat_eq_nat_uint)
  then have n: "nat (uint l - 4) = unat l - 4" by linarith
  have "RTA_ALIGN (unat l - 4) = RTA_ALIGN (unat l) - 4"
    using l(2) by (intro RTA_ALIGN_diff) simp_all
  moreover have "RTA_ALIGN (unat l) - 4 \<le> length rta - 4"
    using l(3) by (rule diff_le_mono)
  ultimately have "uint l - 4 < 4 \<or> RTA_ALIGN (nat (uint l - 4)) \<le> length (drop 4 rta)"
    by (simp add: n)
  then have "\<exists>tb'. parse_rtattr_loop mx NLA_F_NESTED (\<lambda>_. None) (drop 4 rta) (uint l - 4) = Some tb'
           \<and> (\<forall>t a. tb' t = Some a \<longrightarrow> attr_in_buffer a)"
    by (rule parse_rtattr_loop_in_buffer) simp
  then show ?thesis
    using l(1)
    by (simp add: parse_rtattr_nested_def parse_rtattr_flags_def RTA_PAYLOAD_rta_len
        sint_payload RTA_DATA_def RTA_LENGTH_def RTA_ALIGN_def)
qed

lemma aifo_print_opt_returns_0: "aifo_print_opt opt = Some (r, out) \<Longrightarrow> r = 0"
  by (cases opt) (auto simp add: aifo_print_opt_def bind_eq_Some_conv)

lemma aifo_print_opt_small:
  assumes "rta_len rta = Some l" and "unat l < 8"
  shows "aifo_print_opt (Some rta) = Some (0, [])"
proof -
  have "unat l = nat (uint l)" by (rule unat_eq_nat_uint)
  with assms(2) have "uint l - 4 < 4" by linarith
  then have "parse_rtattr_nested TCA_AIFO_MAX rta = Some (\<lambda>_. None)"
    using assms(1)
    by (simp add: parse_rtattr_nested_def parse_rtattr_flags_def RTA_PAYLOAD_rta_len
        sint_payload parse_rtattr_loop.simps[of _ _ _ _ "uint l - 4"])
  then show ?thesis by (simp add: aifo_print_opt_def if_attr_def)
qed

lemma aifo_print_opt_in_buffer:
  assumes "attr_in_buffer rta"
  shows "(\<exists>out. aifo_print_opt (Some rta) = Some (0, out))
       \<or> (aifo_print_opt (Some rta) = None
          \<and> (\<exists>tb a pl k. parse_rtattr_nested TCA_AIFO_MAX rta = Some tb
                \<and> tb TCA_AIFO_BUCKETS_LOG = Some a \<and> RTA_PAYLOAD a = Some pl \<and> 4 \<le> pl
                \<and> rta_getattr_u32 a = Some k \<and> 32 \<le> k))"
proof -
  from assms obtain tb where tb: "parse_rtattr_nested TCA_AIFO_MAX rta = Some tb"
    and ib: "\<forall>t a. tb t = Some a \<longrightarrow> attr_in_buffer a"
    using parse_rtattr_nested_in_buffer by blast
  have ibt: "\<forall>a. tb t = Some a \<longrightarrow> attr_in_buffer a" for t using ib by blast
  have w32: "2 \<le> sizeof_u32" and w16: "2 \<le> sizeof_u16"
    by (simp_all add: sizeof_u32_def sizeof_u16_def)
  obtain o1 where o1: "if_attr (tb TCA_AIFO_PLIMIT) sizeof_u32 (\<lambda>a. do {
      v \<leftarrow> rta_getattr_u32 a; Some [Print_uint ''limit'' ''limit %up '' v] }) = Some o1"
    using if_attr_read_u32[where x = "tb TCA_AIFO_PLIMIT" and w = sizeof_u32 and g = "\<lambda>v. [Print_uint ''limit'' ''limit %up '' v]"] ibt w32
    by blast
  obtain o2 where o2: "if_attr (tb TCA_AIFO_BURST) sizeof_u16 (\<lambda>a. do {
      v \<leftarrow> rta_getattr_u32 a; Some [Print_uint ''burst'' ''burst %u '' v] }) = Some o2"
    using if_attr_read_u32[where x = "tb TCA_AIFO_BURST" and w = sizeof_u16 and g = "\<lambda>v. [Print_uint ''burst'' ''burst %u '' v]"] ibt w16
    by blast
  obtain o4 where o4: "if_attr (tb TCA_AIFO_HASH_MASK) sizeof_u32 (\<lambda>a. do {
      v \<leftarrow> rta_getattr_u32 a; Some [Print_uint ''hash_mask'' ''hash_mask %u '' v] }) = Some o4"
    using if_attr_read_u32[where x = "tb TCA_AIFO_HASH_MASK" and w = sizeof_u32 and g = "\<lambda>v. [Print_uint ''hash_mask'' ''hash_mask %u '' v]"] ibt w32
    by blast
  obtain o5 where o5: "if_attr (tb TCA_AIFO_FLOW_PLIMIT) sizeof_u32 (\<lambda>a. do {
      v \<leftarrow> rta_getattr_u32 a; Some [Print_uint ''flow_limit'' ''flow_limit %up '' v] }) = Some o5"
    using if_attr_read_u32[where x = "tb TCA_AIFO_FLOW_PLIMIT" and w = sizeof_u32 and g = "\<lambda>v. [Print_uint ''flow_limit'' ''flow_limit %up '' v]"] ibt w32
    by blast
  obtain o6 where o6: "if_attr (tb TCA_AIFO_SAMPLE_SIZE) sizeof_u16 (\<lambda>a. do {
      v \<leftarrow> rta_getattr_u16 a; Some [Print_uint ''samples'' ''samples %u '' (ucast v)] }) = Some o6"
    using if_attr_read_u16[where x = "tb TCA_AIFO_SAMPLE_SIZE" and w = sizeof_u16 and g = "\<lambda>v. [Print_uint ''samples'' ''samples %u '' (ucast v)]"] ibt w16
    by blast
  obtain o7 where o7: "if_attr (tb TCA_AIFO_SAMPLE_PERIOD) sizeof_u16 (\<lambda>a. do {
      v \<leftarrow> rta_getattr_u16 a; Some [Print_uint ''speriod'' ''speriod %u '' (ucast v)] }) = Some o7"
    using if_attr_read_u16[where x = "tb TCA_AIFO_SAMPLE_PERIOD" and w = sizeof_u16 and g = "\<lambda>v. [Print_uint ''speriod'' ''speriod %u '' (ucast v)]"] ibt w16
    by blast
  obtain o8 where o8: "if_attr (tb TCA_AIFO_FLAGS) sizeof_u32 (\<lambda>a. do {
      v \<leftarrow> rta_getattr_u32 a; Some [Print_uint ''flags'' ''flags 0x%X '' v] }) = Some o8"
    using if_attr_read_u32[where x = "tb TCA_AIFO_FLAGS" and w = sizeof_u32 and g = "\<lambda>v. [Print_uint ''flags'' ''flags 0x%X '' v]"] ibt w32
    by blast
  let ?b = "\<lambda>a. do { k \<leftarrow> rta_getattr_u32 a; b \<leftarrow> shl_1U k;
      Some [Print_uint ''buckets'' ''buckets %u '' b] }"
  from if_attr_shift[where x = "tb TCA_AIFO_BUCKETS_LOG" and w = sizeof_u32
      and g = "\<lambda>b. [Print_uint ''buckets'' ''buckets %u '' b]"] ibt w32
  consider (ok) o3 where "if_attr (tb TCA_AIFO_BUCKETS_LOG) sizeof_u32 ?b = Some o3"
    | (undef) a pl k where "if_attr (tb TCA_AIFO_BUCKETS_LOG) sizeof_u32 ?b = None"
        "tb TCA_AIFO_BUCKETS_LOG = Some a" "RTA_PAYLOAD a = Some pl" "sizeof_u32 \<le> pl"
        "rta_getattr_u32 a = Some k" "32 \<le> k"
    by blast
  then show ?thesis
  proof cases
    case ok
    with tb o1 o2 o4 o5 o6 o7 o8 show ?thesis by (simp add: aifo_print_opt_def)
  next
    case undef
    from undef(1) tb o1 o2 have "aifo_print_opt (Some rta) = None"
      by (simp add: aifo_print_opt_def)
    with tb undef(2-6) show ?thesis by (simp add: sizeof_u32_def)
  qed
qed

section \<open>The claims\<close>

text \<open>
  C1. For every value \<open>v\<close> that \<^verbatim>\<open>get_unsigned\<close> yields for the token after
  \<^verbatim>\<open>buckets\<close>, with \<open>1 \<le> v \<le> 2^31\<close>: the encoder, on a message with room,
  appends the nested block holding one \<^verbatim>\<open>TCA_AIFO_BUCKETS_LOG\<close> attribute whose value
  is the least \<open>k\<close> with \<open>v \<le> 2^k\<close>, and the decoder prints that block as
  \<^verbatim>\<open>buckets\<close> with the value \<open>2^k\<close> (which is \<^verbatim>\<open>1 << k\<close>). For \<open>v = 0\<close> the
  block is empty: no \<^verbatim>\<open>TCA_AIFO_BUCKETS_LOG\<close> attribute is written.
\<close>

theorem buckets_log_round_trip:
  assumes "get_unsigned U s = Some v" and "NLMSG_ALIGN (length n) + 12 \<le> 1024"
  shows "(v \<noteq> 0 \<and> unat v \<le> 2 ^ 31 \<longrightarrow>
           (let k = (LEAST k. unat v \<le> 2 ^ k);
                r = aifo_parse_opt U [''buckets'', s] n
            in r = (Inr 0, zero_pad (NLMSG_ALIGN (length n)) n
                      @ u16_bytes 12 @ u16_bytes (of_nat TCA_OPTIONS)
                      @ rtattr_bytes TCA_AIFO_BUCKETS_LOG (u32_bytes (of_nat k)))
             \<and> aifo_print_opt (Some (drop (NLMSG_ALIGN (length n)) (snd r)))
                 = Some (0, [Print_uint ''buckets'' ''buckets %u '' (2 ^ k)])))
       \<and> (v = 0 \<longrightarrow> aifo_parse_opt U [''buckets'', s] n
             = (Inr 0, zero_pad (NLMSG_ALIGN (length n)) n
                  @ u16_bytes 4 @ u16_bytes (of_nat TCA_OPTIONS)))"
proof -
  define w where "w = opts_init\<lparr>buckets := v\<rparr>"
  have p: "parse_args U opts_init [''buckets'', s] = Inr w"
    using assms(1) by (simp add: w_def)
  have body: "block_body w = opt_attr (v \<noteq> 0) TCA_AIFO_BUCKETS_LOG (u32_bytes (ilog2 v))"
    by (simp add: block_body_def w_def opts_init_def opt_attr_def)
  have items: "block_items w
      = opt_item (v \<noteq> 0) (Print_uint ''buckets'' ''buckets %u '' (push_bit (unat (ilog2 v)) 1))"
    by (simp add: block_items_def w_def opts_init_def opt_item_def)
  have cap: "NLMSG_ALIGN (length n) + 4 + length (block_body w) \<le> 1024"
    using assms(2) by (simp add: body length_opt_attr RTA_ALIGN_def)
  note enc = aifo_parse_opt_layout[OF p cap]
  show ?thesis
  proof (intro conjI impI)
    assume v: "v \<noteq> 0 \<and> unat v \<le> 2 ^ 31"
    define k where "k = (LEAST k. unat v \<le> 2 ^ k)"
    have ku: "unat (ilog2 v) = k"
      using v by (simp add: ilog2_Least k_def)
    have "ilog2 v = of_nat (unat (ilog2 v))"
      by simp
    then have kw: "ilog2 v = of_nat k"
      by (simp only: ku)
    have pr: "aifo_print_opt (Some (nested_block w @ [])) = Some (0, block_items w)"
      by (rule aifo_print_opt_nested_block) (use v in \<open>simp add: w_def\<close>)
    have nb: "nested_block w = u16_bytes 12 @ u16_bytes (of_nat TCA_OPTIONS)
        @ rtattr_bytes TCA_AIFO_BUCKETS_LOG (u32_bytes (of_nat k))"
      using v by (simp add: nested_block_def body opt_attr_def length_rtattr_bytes RTA_ALIGN_def kw)
    have it: "block_items w = [Print_uint ''buckets'' ''buckets %u '' (2 ^ k)]"
      using v by (simp add: items opt_item_def ku push_bit_eq_mult)
    show "let k = (LEAST k. unat v \<le> 2 ^ k); r = aifo_parse_opt U [''buckets'', s] n
          in r = (Inr 0, zero_pad (NLMSG_ALIGN (length n)) n
                      @ u16_bytes 12 @ u16_bytes (of_nat TCA_OPTIONS)
                      @ rtattr_bytes TCA_AIFO_BUCKETS_LOG (u32_bytes (of_nat k)))
             \<and> aifo_print_opt (Some (drop (NLMSG_ALIGN (length n)) (snd r)))
                 = Some (0, [Print_uint ''buckets'' ''buckets %u '' (2 ^ k)])"
      unfolding Let_def k_def[symmetric] enc snd_conv drop_zero_pad_append
      using pr by (simp add: nb it)
  next
    assume "v = 0"
    then show "aifo_parse_opt U [''buckets'', s] n
             = (Inr 0, zero_pad (NLMSG_ALIGN (length n)) n
                  @ u16_bytes 4 @ u16_bytes (of_nat TCA_OPTIONS))"
      unfolding enc by (simp add: nested_block_def body opt_attr_def)
  qed
qed

text \<open>
  The theorem at \<^verbatim>\<open>buckets 1000\<close>, \<^verbatim>\<open>buckets 3\<close>, \<^verbatim>\<open>buckets 1\<close> and
  \<^verbatim>\<open>buckets 0\<close> on an empty message: 1024, 4 and 1 are printed, and nothing for 0.
\<close>

theorem buckets_log_round_trip_witness:
  "get_unsigned dec_utils ''1000'' = Some 1000
   \<and> NLMSG_ALIGN (length ([] :: byte list)) + 12 \<le> 1024
   \<and> aifo_parse_opt dec_utils [''buckets'', ''1000''] []
       = (Inr 0, [12, 0, 2, 0, 8, 0, 3, 0, 10, 0, 0, 0])
   \<and> aifo_print_opt (Some (snd (aifo_parse_opt dec_utils [''buckets'', ''1000''] [])))
       = Some (0, [Print_uint ''buckets'' ''buckets %u '' 1024])
   \<and> aifo_print_opt (Some (snd (aifo_parse_opt dec_utils [''buckets'', ''3''] [])))
       = Some (0, [Print_uint ''buckets'' ''buckets %u '' 4])
   \<and> aifo_parse_opt dec_utils [''buckets'', ''1''] []
       = (Inr 0, [12, 0, 2, 0, 8, 0, 3, 0, 0, 0, 0, 0])
   \<and> aifo_print_opt (Some (snd (aifo_parse_opt dec_utils [''buckets'', ''1''] [])))
       = Some (0, [Print_uint ''buckets'' ''buckets %u '' 1])
   \<and> get_unsigned dec_utils ''0'' = Some 0
   \<and> aifo_parse_opt dec_utils [''buckets'', ''0''] [] = (Inr 0, [4, 0, 2, 0])"
proof -
  have g: "get_unsigned dec_utils ''1000'' = Some 1000" "get_unsigned dec_utils ''3'' = Some 3"
    "get_unsigned dec_utils ''1'' = Some 1" "get_unsigned dec_utils ''0'' = Some 0"
    by (simp_all add: dec_utils_def strtoul_dec_def digit_val_def)
  have c: "NLMSG_ALIGN (length ([] :: byte list)) + 12 \<le> 1024"
    by (simp add: NLMSG_ALIGN_def)
  have k: "(LEAST k. unat (1000 :: u32) \<le> 2 ^ k) = 10" "(LEAST k. unat (3 :: u32) \<le> 2 ^ k) = 2"
    "(LEAST k. unat (1 :: u32) \<le> 2 ^ k) = 0"
    using ilog2_Least[of 1000] ilog2_Least[of 3] ilog2_Least[of 1]
    by (simp_all add: ilog2_def ilog2_loop.simps)
  note ev = Let_def u16_bytes_def u32_bytes_def rtattr_bytes_def zero_pad_def TCA_OPTIONS_def
    tca_defs NLMSG_ALIGN_def RTA_ALIGN_def
  from buckets_log_round_trip[OF g(1) c] k(1)
  have a: "aifo_parse_opt dec_utils [''buckets'', ''1000''] []
       = (Inr 0, [12, 0, 2, 0, 8, 0, 3, 0, 10, 0, 0, 0])
    \<and> aifo_print_opt (Some (snd (aifo_parse_opt dec_utils [''buckets'', ''1000''] [])))
       = Some (0, [Print_uint ''buckets'' ''buckets %u '' 1024])"
    by (clarsimp simp add: ev)
  from buckets_log_round_trip[OF g(2) c] k(2)
  have b: "aifo_print_opt (Some (snd (aifo_parse_opt dec_utils [''buckets'', ''3''] [])))
       = Some (0, [Print_uint ''buckets'' ''buckets %u '' 4])"
    by (clarsimp simp add: ev)
  from buckets_log_round_trip[OF g(3) c] k(3)
  have d: "aifo_parse_opt dec_utils [''buckets'', ''1''] []
       = (Inr 0, [12, 0, 2, 0, 8, 0, 3, 0, 0, 0, 0, 0])
    \<and> aifo_print_opt (Some (snd (aifo_parse_opt dec_utils [''buckets'', ''1''] [])))
       = Some (0, [Print_uint ''buckets'' ''buckets %u '' 1])"
    by (clarsimp simp add: ev)
  from buckets_log_round_trip[OF g(4) c]
  have e: "aifo_parse_opt dec_utils [''buckets'', ''0''] [] = (Inr 0, [4, 0, 2, 0])"
    by (simp add: ev)
  from g(1) g(4) c a b d e show ?thesis by blast
qed

text \<open>
  C9, as the specification states it, does not hold: a token sequence that contains an
  unrecognized option name need not fail with \<open>UnknownOption\<close>. The loop stops at the
  first failure. In \<^verbatim>\<open>limit x --bogus\<close> the value \<^verbatim>\<open>x\<close> is no integer and the call
  fails with \<open>InvalidInteger\<close> before \<^verbatim>\<open>--bogus\<close> is looked at; in
  \<^verbatim>\<open>help --bogus\<close> it fails with \<open>HelpRequested\<close>. The message is unchanged in both.
\<close>

theorem unknown_option_counterexample:
  "''--bogus'' \<in> set [''limit'', ''x'', ''--bogus'']
   \<and> ''--bogus'' \<notin> set value_options \<and> \<not> strcasecmp_eq ''--bogus'' ''flags''
   \<and> ''--bogus'' \<noteq> ''help''
   \<and> aifo_parse_opt dec_utils [''limit'', ''x'', ''--bogus''] [1, 2, 3, 4]
       = (Inl (InvalidInteger ''limit''), [1, 2, 3, 4])
   \<and> fst (aifo_parse_opt dec_utils [''limit'', ''x'', ''--bogus''] [1, 2, 3, 4])
       \<noteq> Inl (UnknownOption ''--bogus'')
   \<and> aifo_parse_opt dec_utils [''help'', ''--bogus''] [1, 2, 3, 4]
       = (Inl HelpRequested, [1, 2, 3, 4])
   \<and> fst (aifo_parse_opt dec_utils [''help'', ''--bogus''] [1, 2, 3, 4])
       \<noteq> Inl (UnknownOption ''--bogus'')"
proof -
  have g: "get_u32 dec_utils ''x'' = None"
    by (simp add: dec_utils_def strtoul_dec_def digit_val_def)
  have b: "''--bogus'' \<notin> set value_options" "\<not> strcasecmp_eq ''--bogus'' ''flags''"
    by (simp_all add: value_options_def strcasecmp_eq_def tolower_def)
  have p: "parse_args dec_utils opts_init [''limit'', ''x'', ''--bogus''] = Inl (InvalidInteger ''limit'')"
    "parse_args dec_utils opts_init [''help'', ''--bogus''] = Inl HelpRequested"
    by (simp_all add: g)
  from b p show ?thesis
    by (simp add: aifo_parse_opt_def)
qed

text \<open>
  C9, amended. A failure of the token loop leaves the message as it was: the code
  returns before the first append. Whenever the call does not return 0 the message is
  unchanged; a token in option-name position that is no option name (nor \<^verbatim>\<open>flags\<close>
  in any case) makes the call fail; and the failure is \<open>UnknownOption\<close> when the
  tokens before that name are accepted and the name is not \<^verbatim>\<open>help\<close> either.
  Otherwise it is the failure of an earlier token.
\<close>

theorem token_failure_writes_nothing:
  "(fst (aifo_parse_opt U argv n) \<noteq> Inr 0 \<longrightarrow> snd (aifo_parse_opt U argv n) = n)
   \<and> (a \<in> set (option_names argv) \<and> a \<notin> set value_options \<and> \<not> strcasecmp_eq a ''flags''
        \<longrightarrow> (\<exists>e. aifo_parse_opt U argv n = (Inl e, n)))
   \<and> (parse_args U opts_init pre = Inr v \<and> a \<notin> set value_options
        \<and> \<not> strcasecmp_eq a ''flags'' \<and> a \<noteq> ''help''
        \<longrightarrow> aifo_parse_opt U (pre @ a # post) n = (Inl (UnknownOption a), n))"
proof (intro conjI impI)
  assume "fst (aifo_parse_opt U argv n) \<noteq> Inr 0"
  then show "snd (aifo_parse_opt U argv n) = n"
    by (cases "parse_args U opts_init argv") (simp_all add: aifo_parse_opt_def)
next
  assume "a \<in> set (option_names argv) \<and> a \<notin> set value_options \<and> \<not> strcasecmp_eq a ''flags''"
  then obtain e where "parse_args U opts_init argv = Inl e"
    using parse_args_fails_at by blast
  then show "\<exists>e. aifo_parse_opt U argv n = (Inl e, n)"
    by (auto simp add: aifo_parse_opt_fail)
next
  assume h: "parse_args U opts_init pre = Inr v \<and> a \<notin> set value_options
        \<and> \<not> strcasecmp_eq a ''flags'' \<and> a \<noteq> ''help''"
  then have "parse_args U opts_init (pre @ a # post) = Inl (UnknownOption a)"
    by (simp add: parse_args_append)
  then show "aifo_parse_opt U (pre @ a # post) n = (Inl (UnknownOption a), n)"
    by (rule aifo_parse_opt_fail)
qed

text \<open>
  The theorem at \<^verbatim>\<open>limit 5 --bogus burst 1\<close> and at \<^verbatim>\<open>samples 1025\<close>, and the
  other failures of the loop, on the message \<open>[1, 2, 3, 4]\<close>.
\<close>

theorem token_failure_writes_nothing_witness:
  "parse_args dec_utils opts_init [''limit'', ''5''] = Inr (opts_init\<lparr>plimit := 5\<rparr>)
   \<and> ''--bogus'' \<notin> set value_options \<and> \<not> strcasecmp_eq ''--bogus'' ''flags''
   \<and> ''--bogus'' \<noteq> ''help''
   \<and> aifo_parse_opt dec_utils [''limit'', ''5'', ''--bogus'', ''burst'', ''1''] [1, 2, 3, 4]
      = (Inl (UnknownOption ''--bogus''), [1, 2, 3, 4])
   \<and> fst (aifo_parse_opt dec_utils [''samples'', ''1025''] [1, 2, 3, 4]) \<noteq> Inr 0
   \<and> aifo_parse_opt dec_utils [''samples'', ''1025''] [1, 2, 3, 4] = (Inl ValueTooLarge, [1, 2, 3, 4])
   \<and> aifo_parse_opt dec_utils [''limit''] [1, 2, 3, 4] = (Inl MissingArgument, [1, 2, 3, 4])
   \<and> aifo_parse_opt dec_utils [''limit'', ''x''] [1, 2, 3, 4]
      = (Inl (InvalidInteger ''limit''), [1, 2, 3, 4])
   \<and> aifo_parse_opt dec_utils [''help''] [1, 2, 3, 4] = (Inl HelpRequested, [1, 2, 3, 4])"
proof -
  have g: "get_u32 dec_utils ''5'' = Some 5" "get_u16 dec_utils ''1025'' = Some 1025"
    "get_u32 dec_utils ''x'' = None"
    by (simp_all add: dec_utils_def strtoul_dec_def digit_val_def)
  note ev = g value_options_def strcasecmp_eq_def
    tolower_def AIFO_SAMPLE_SIZE_MAX_def parse_args_missing aifo_parse_opt_def
  have p: "parse_args dec_utils opts_init [''limit'', ''5''] = Inr (opts_init\<lparr>plimit := 5\<rparr>)"
    by (simp add: ev)
  have b: "''--bogus'' \<notin> set value_options" "\<not> strcasecmp_eq ''--bogus'' ''flags''"
    "''--bogus'' \<noteq> ''help''"
    by (simp_all add: ev)
  have u: "aifo_parse_opt dec_utils ([''limit'', ''5''] @ ''--bogus'' # [''burst'', ''1'']) [1, 2, 3, 4]
      = (Inl (UnknownOption ''--bogus''), [1, 2, 3, 4])"
    using token_failure_writes_nothing[where U = dec_utils and a = "''--bogus''"
        and pre = "[''limit'', ''5'']" and v = "opts_init\<lparr>plimit := 5\<rparr>"
        and post = "[''burst'', ''1'']" and n = "[1, 2, 3, 4]"] p b
    by blast
  have s: "fst (aifo_parse_opt dec_utils [''samples'', ''1025''] [1, 2, 3, 4]) \<noteq> Inr 0"
    by (simp add: ev)
  have s': "aifo_parse_opt dec_utils [''samples'', ''1025''] [1, 2, 3, 4] = (Inl ValueTooLarge, [1, 2, 3, 4])"
    using token_failure_writes_nothing[where U = dec_utils and argv = "[''samples'', ''1025'']"
        and n = "[1, 2, 3, 4]"] s
    by (simp add: ev)
  have r: "aifo_parse_opt dec_utils [''limit''] [1, 2, 3, 4] = (Inl MissingArgument, [1, 2, 3, 4])"
    "aifo_parse_opt dec_utils [''limit'', ''x''] [1, 2, 3, 4]
      = (Inl (InvalidInteger ''limit''), [1, 2, 3, 4])"
    "aifo_parse_opt dec_utils [''help''] [1, 2, 3, 4] = (Inl HelpRequested, [1, 2, 3, 4])"
    by (simp_all add: ev)
  from p b u s s' r show ?thesis by simp
qed

text \<open>
  C8. For every value \<open>x\<close> that \<^verbatim>\<open>get_u16\<close> yields for the token after
  \<^verbatim>\<open>samples\<close>: the call fails with \<open>ValueTooLarge\<close> exactly when \<open>x\<close> exceeds 1024,
  also when other accepted options come before; a value up to 1024 is accepted and, on a
  message with room, written as the \<^verbatim>\<open>TCA_AIFO_SAMPLE_SIZE\<close> attribute.
\<close>

theorem samples_ceiling:
  assumes "get_u16 U s = Some x"
  shows "(fst (aifo_parse_opt U [''samples'', s] n) = Inl ValueTooLarge \<longleftrightarrow> 1024 < unat x)
       \<and> (1024 < unat x \<and> parse_args U opts_init pre = Inr v
            \<longrightarrow> aifo_parse_opt U (pre @ ''samples'' # s # post) n = (Inl ValueTooLarge, n))
       \<and> (unat x \<le> 1024 \<and> NLMSG_ALIGN (length n) + 12 \<le> 1024
            \<longrightarrow> aifo_parse_opt U [''samples'', s] n
                = (Inr 0, zero_pad (NLMSG_ALIGN (length n)) n
                     @ u16_bytes 12 @ u16_bytes (of_nat TCA_OPTIONS)
                     @ rtattr_bytes TCA_AIFO_SAMPLE_SIZE (u16_bytes x)))"
proof (intro conjI impI)
  show "fst (aifo_parse_opt U [''samples'', s] n) = Inl ValueTooLarge \<longleftrightarrow> 1024 < unat x"
    using assms by (simp add: aifo_parse_opt_def word_u16_le_1024)
next
  assume "1024 < unat x \<and> parse_args U opts_init pre = Inr v"
  then have "parse_args U opts_init (pre @ ''samples'' # s # post) = Inl ValueTooLarge"
    using assms by (simp add: parse_args_append word_u16_le_1024)
  then show "aifo_parse_opt U (pre @ ''samples'' # s # post) n = (Inl ValueTooLarge, n)"
    by (rule aifo_parse_opt_fail)
next
  assume h: "unat x \<le> 1024 \<and> NLMSG_ALIGN (length n) + 12 \<le> 1024"
  define w where "w = opts_init\<lparr>sample_size := x\<rparr>"
  from h have ne: "x \<noteq> 0xFFFF" by auto
  have p: "parse_args U opts_init [''samples'', s] = Inr w"
    using assms h by (simp add: w_def word_u16_le_1024)
  have body: "block_body w = rtattr_bytes TCA_AIFO_SAMPLE_SIZE (u16_bytes x)"
    using ne by (simp add: block_body_def w_def opts_init_def opt_attr_def)
  have cap: "NLMSG_ALIGN (length n) + 4 + length (block_body w) \<le> 1024"
    using h by (simp add: body length_rtattr_bytes RTA_ALIGN_def)
  show "aifo_parse_opt U [''samples'', s] n
                = (Inr 0, zero_pad (NLMSG_ALIGN (length n)) n
                     @ u16_bytes 12 @ u16_bytes (of_nat TCA_OPTIONS)
                     @ rtattr_bytes TCA_AIFO_SAMPLE_SIZE (u16_bytes x))"
    unfolding aifo_parse_opt_layout[OF p cap]
    by (simp add: nested_block_def body length_rtattr_bytes RTA_ALIGN_def)
qed

text \<open>
  The theorem at \<^verbatim>\<open>samples 1025\<close> (alone and after \<^verbatim>\<open>limit 7\<close>) and at
  \<^verbatim>\<open>samples 1024\<close>.
\<close>

theorem samples_ceiling_witness:
  "get_u16 dec_utils ''1025'' = Some 1025 \<and> get_u16 dec_utils ''1024'' = Some 1024
   \<and> aifo_parse_opt dec_utils [''samples'', ''1025''] [] = (Inl ValueTooLarge, [])
   \<and> parse_args dec_utils opts_init [''limit'', ''7''] = Inr (opts_init\<lparr>plimit := 7\<rparr>)
   \<and> aifo_parse_opt dec_utils [''limit'', ''7'', ''samples'', ''1025'', ''burst'', ''2''] []
       = (Inl ValueTooLarge, [])
   \<and> NLMSG_ALIGN (length ([] :: byte list)) + 12 \<le> 1024
   \<and> aifo_parse_opt dec_utils [''samples'', ''1024''] []
       = (Inr 0, [12, 0, 2, 0, 6, 0, 6, 0, 0, 4, 0, 0])"
proof -
  have g: "get_u16 dec_utils ''1025'' = Some 1025" "get_u16 dec_utils ''1024'' = Some 1024"
    "get_u32 dec_utils ''7'' = Some 7"
    by (simp_all add: dec_utils_def strtoul_dec_def digit_val_def)
  have p: "parse_args dec_utils opts_init [''limit'', ''7''] = Inr (opts_init\<lparr>plimit := 7\<rparr>)"
    by (simp add: g)
  have c: "NLMSG_ALIGN (length ([] :: byte list)) + 12 \<le> 1024"
    by (simp add: NLMSG_ALIGN_def)
  note t1 = samples_ceiling[OF g(1), where pre = "[''limit'', ''7'']"
      and v = "opts_init\<lparr>plimit := 7\<rparr>" and post = "[''burst'', ''2'']" and n = "[]"]
  note t2 = samples_ceiling[OF g(2), where n = "[]"]
  have a: "aifo_parse_opt dec_utils [''samples'', ''1025''] [] = (Inl ValueTooLarge, [])"
    using t1 by (simp add: aifo_parse_opt_def g AIFO_SAMPLE_SIZE_MAX_def)
  have b: "aifo_parse_opt dec_utils ([''limit'', ''7''] @ ''samples'' # ''1025'' # [''burst'', ''2'']) []
       = (Inl ValueTooLarge, [])"
    using t1 p by simp
  have d: "aifo_parse_opt dec_utils [''samples'', ''1024''] []
       = (Inr 0, [12, 0, 2, 0, 6, 0, 6, 0, 0, 4, 0, 0])"
    using t2 c by (simp add: u16_bytes_def rtattr_bytes_def zero_pad_def TCA_OPTIONS_def tca_defs
        NLMSG_ALIGN_def RTA_ALIGN_def replicate_small)
  from g(1) g(2) a p b c d show ?thesis by simp
qed



text \<open>
  C7. \<^verbatim>\<open>flags\<close> with any value \<open>x\<close>, 0 included, is written as the
  \<^verbatim>\<open>TCA_AIFO_FLAGS\<close> attribute holding \<open>x\<close> and printed back as \<^verbatim>\<open>flags\<close> with
  \<open>x\<close>; with no token the block is empty and nothing is printed. In general, for
  accepted tokens on a message with room, \<^verbatim>\<open>flags\<close> is among the printed fields
  exactly when a token in option-name position is \<^verbatim>\<open>flags\<close> (in any case): the
  value plays no part.
\<close>

theorem flags_presence_independent_of_value:
  assumes "get_unsigned U s = Some x" and "NLMSG_ALIGN (length n) + 12 \<le> 1024"
  shows "aifo_parse_opt U [''flags'', s] n
           = (Inr 0, zero_pad (NLMSG_ALIGN (length n)) n
                @ u16_bytes 12 @ u16_bytes (of_nat TCA_OPTIONS)
                @ rtattr_bytes TCA_AIFO_FLAGS (u32_bytes x))
       \<and> aifo_print_opt (Some (drop (NLMSG_ALIGN (length n)) (snd (aifo_parse_opt U [''flags'', s] n))))
           = Some (0, [Print_uint ''flags'' ''flags 0x%X '' x])
       \<and> aifo_parse_opt U [] n
           = (Inr 0, zero_pad (NLMSG_ALIGN (length n)) n @ u16_bytes 4 @ u16_bytes (of_nat TCA_OPTIONS))
       \<and> aifo_print_opt (Some (drop (NLMSG_ALIGN (length n)) (snd (aifo_parse_opt U [] n))))
           = Some (0, [])
       \<and> (parse_args U opts_init argv = Inr v
            \<and> NLMSG_ALIGN (length n) + 4 + length (block_body v) \<le> 1024
            \<and> (buckets v \<noteq> 0 \<longrightarrow> unat (buckets v) \<le> 2 ^ 31)
           \<longrightarrow> (\<exists>out. aifo_print_opt (Some (drop (NLMSG_ALIGN (length n)) (snd (aifo_parse_opt U argv n))))
                     = Some (0, out)
                 \<and> (''flags'' \<in> item_key ` set out)
                     = (\<exists>a\<in>set (option_names argv). strcasecmp_eq a ''flags'')))"
proof -
  note gen = aifo_round_trip
  define w where "w = opts_init\<lparr>flags := x, flags_upd := True\<rparr>"
  have p: "parse_args U opts_init [''flags'', s] = Inr w"
    using assms(1) by (simp add: w_def value_options_def)
  have body: "block_body w = rtattr_bytes TCA_AIFO_FLAGS (u32_bytes x)"
    by (simp add: block_body_def w_def opts_init_def opt_attr_def)
  have items: "block_items w = [Print_uint ''flags'' ''flags 0x%X '' x]"
    by (simp add: block_items_def w_def opts_init_def opt_item_def)
  have cap: "NLMSG_ALIGN (length n) + 4 + length (block_body w) \<le> 1024"
    using assms(2) by (simp add: body length_rtattr_bytes RTA_ALIGN_def)
  have bw: "buckets w \<noteq> 0 \<longrightarrow> unat (buckets w) \<le> 2 ^ 31"
    by (simp add: w_def opts_init_def)
  have p0: "parse_args U opts_init [] = Inr opts_init" by simp
  have body0: "block_body opts_init = []"
    by (simp add: block_body_def opts_init_def opt_attr_def)
  have items0: "block_items opts_init = []"
    by (simp add: block_items_def opts_init_def opt_item_def)
  have cap0: "NLMSG_ALIGN (length n) + 4 + length (block_body opts_init) \<le> 1024"
    using assms(2) by (simp add: body0)
  have b0: "buckets opts_init \<noteq> 0 \<longrightarrow> unat (buckets opts_init) \<le> 2 ^ 31"
    by (simp add: opts_init_def)
  have 1: "aifo_parse_opt U [''flags'', s] n
           = (Inr 0, zero_pad (NLMSG_ALIGN (length n)) n
                @ u16_bytes 12 @ u16_bytes (of_nat TCA_OPTIONS)
                @ rtattr_bytes TCA_AIFO_FLAGS (u32_bytes x))"
    unfolding aifo_parse_opt_layout[OF p cap]
    by (simp add: nested_block_def body length_rtattr_bytes RTA_ALIGN_def)
  have 2: "aifo_print_opt (Some (drop (NLMSG_ALIGN (length n)) (snd (aifo_parse_opt U [''flags'', s] n))))
           = Some (0, [Print_uint ''flags'' ''flags 0x%X '' x])"
    using gen[OF p cap bw] by (simp only: items)
  have 3: "aifo_parse_opt U [] n
           = (Inr 0, zero_pad (NLMSG_ALIGN (length n)) n @ u16_bytes 4 @ u16_bytes (of_nat TCA_OPTIONS))"
    unfolding aifo_parse_opt_layout[OF p0 cap0]
    by (simp add: nested_block_def body0)
  have 4: "aifo_print_opt (Some (drop (NLMSG_ALIGN (length n)) (snd (aifo_parse_opt U [] n))))
           = Some (0, [])"
    using gen[OF p0 cap0 b0] by (simp only: items0)
  have 5: "\<exists>out. aifo_print_opt (Some (drop (NLMSG_ALIGN (length n)) (snd (aifo_parse_opt U argv n))))
                     = Some (0, out)
                 \<and> (''flags'' \<in> item_key ` set out)
                     = (\<exists>a\<in>set (option_names argv). strcasecmp_eq a ''flags'')"
    if h: "parse_args U opts_init argv = Inr v
            \<and> NLMSG_ALIGN (length n) + 4 + length (block_body v) \<le> 1024
            \<and> (buckets v \<noteq> 0 \<longrightarrow> unat (buckets v) \<le> 2 ^ 31)"
  proof -
    from h have "aifo_print_opt (Some (drop (NLMSG_ALIGN (length n)) (snd (aifo_parse_opt U argv n))))
        = Some (0, block_items v)"
      by (intro gen) simp_all
    moreover from h have "flags_upd v = (\<exists>a\<in>set (option_names argv). strcasecmp_eq a ''flags'')"
      using parse_args_flags_upd[of U opts_init argv v] by (simp add: opts_init_def)
    ultimately show ?thesis
      by (simp add: flags_key_in_block_items)
  qed
  from 1 2 3 4 5 show ?thesis by blast
qed

text \<open>
  The theorem at \<^verbatim>\<open>flags 0\<close>, at no token, and at \<^verbatim>\<open>limit 5 FLAGS 0\<close>.
\<close>

theorem flags_presence_independent_of_value_witness:
  "get_unsigned dec_utils ''0'' = Some 0 \<and> NLMSG_ALIGN (length ([] :: byte list)) + 12 \<le> 1024
   \<and> aifo_parse_opt dec_utils [''flags'', ''0''] [] = (Inr 0, [12, 0, 2, 0, 8, 0, 8, 0, 0, 0, 0, 0])
   \<and> aifo_print_opt (Some (snd (aifo_parse_opt dec_utils [''flags'', ''0''] [])))
       = Some (0, [Print_uint ''flags'' ''flags 0x%X '' 0])
   \<and> aifo_parse_opt dec_utils [] [] = (Inr 0, [4, 0, 2, 0])
   \<and> aifo_print_opt (Some (snd (aifo_parse_opt dec_utils [] []))) = Some (0, [])
   \<and> parse_args dec_utils opts_init [''limit'', ''5'', ''FLAGS'', ''0'']
       = Inr (opts_init\<lparr>plimit := 5, flags := 0, flags_upd := True\<rparr>)
   \<and> aifo_print_opt (Some (snd (aifo_parse_opt dec_utils [''limit'', ''5'', ''FLAGS'', ''0''] [])))
       = Some (0, [Print_uint ''limit'' ''limit %up '' 5, Print_uint ''flags'' ''flags 0x%X '' 0])"
proof -
  have g: "get_unsigned dec_utils ''0'' = Some 0" "get_u32 dec_utils ''5'' = Some 5"
    by (simp_all add: dec_utils_def strtoul_dec_def digit_val_def)
  have c: "NLMSG_ALIGN (length ([] :: byte list)) + 12 \<le> 1024"
    by (simp add: NLMSG_ALIGN_def)
  define w where "w = opts_init\<lparr>plimit := 5, flags := 0, flags_upd := True\<rparr>"
  have fl: "strcasecmp_eq ''FLAGS'' ''flags''"
    by code_simp
  have p: "parse_args dec_utils opts_init [''limit'', ''5'', ''FLAGS'', ''0''] = Inr w"
    by (simp add: g w_def value_options_def fl)
  have h: "NLMSG_ALIGN (length ([] :: byte list)) + 4 + length (block_body w) \<le> 1024"
    "buckets w \<noteq> 0 \<longrightarrow> unat (buckets w) \<le> 2 ^ 31"
    by (simp_all add: w_def opts_init_def NLMSG_ALIGN_def block_body_def length_opt_attr RTA_ALIGN_def)
  note t = flags_presence_independent_of_value[OF g(1) c,
      where argv = "[''limit'', ''5'', ''FLAGS'', ''0'']" and v = w]
  note ev = zero_pad_def NLMSG_ALIGN_def u16_bytes_def u32_bytes_def rtattr_bytes_def
    TCA_OPTIONS_def tca_defs RTA_ALIGN_def
  from t[THEN conjunct1] have a: "aifo_parse_opt dec_utils [''flags'', ''0''] [] = (Inr 0, [12, 0, 2, 0, 8, 0, 8, 0, 0, 0, 0, 0])"
    by (simp add: ev)
  from t[THEN conjunct2, THEN conjunct1] have b: "aifo_print_opt (Some (snd (aifo_parse_opt dec_utils [''flags'', ''0''] [])))
       = Some (0, [Print_uint ''flags'' ''flags 0x%X '' 0])"
    by (simp add: ev)
  from t[THEN conjunct2, THEN conjunct2, THEN conjunct1] have d: "aifo_parse_opt dec_utils [] [] = (Inr 0, [4, 0, 2, 0])"
    by (simp add: ev)
  from t[THEN conjunct2, THEN conjunct2, THEN conjunct2, THEN conjunct1] have e: "aifo_print_opt (Some (snd (aifo_parse_opt dec_utils [] []))) = Some (0, [])"
    by (simp add: ev)
  have f: "aifo_print_opt (Some (snd (aifo_parse_opt dec_utils [''limit'', ''5'', ''FLAGS'', ''0''] [])))
       = Some (0, [Print_uint ''limit'' ''limit %up '' 5, Print_uint ''flags'' ''flags 0x%X '' 0])"
    using aifo_round_trip[OF p h]
    by (simp add: NLMSG_ALIGN_def block_items_def opt_item_def w_def opts_init_def)
  from g(1) c a b d e p f show ?thesis unfolding w_def by blast
qed

text \<open>
  C4. For accepted tokens, on a message with room for the whole block, the encoder
  appends to the (aligned) message one outer header of type \<^verbatim>\<open>TCA_OPTIONS\<close>, whose
  length is the header plus everything written after it, and then the present fields in
  the order of the tag enumeration: \<^verbatim>\<open>PLIMIT\<close>, \<^verbatim>\<open>BURST\<close>, \<^verbatim>\<open>BUCKETS_LOG\<close>,
  \<^verbatim>\<open>HASH_MASK\<close>, \<^verbatim>\<open>FLOW_PLIMIT\<close>, \<^verbatim>\<open>SAMPLE_SIZE\<close>, \<^verbatim>\<open>SAMPLE_PERIOD\<close>,
  \<^verbatim>\<open>FLAGS\<close>. The order of the tokens plays no part: exchanging two neighbouring
  options of different names gives the same result.
\<close>

theorem encoder_block_layout:
  assumes "parse_args U opts_init argv = Inr v"
    and "NLMSG_ALIGN (length n) + 4 + length (block_body v) \<le> 1024"
  shows "aifo_parse_opt U argv n
           = (Inr 0, zero_pad (NLMSG_ALIGN (length n)) n
                @ u16_bytes (of_nat (4 + length (block_body v))) @ u16_bytes (of_nat TCA_OPTIONS)
                @ block_body v)
       \<and> block_body v =
           opt_attr (plimit v \<noteq> 0xFFFFFFFF) TCA_AIFO_PLIMIT (u32_bytes (plimit v)) @
           opt_attr (burst v \<noteq> 0xFFFFFFFF) TCA_AIFO_BURST (u32_bytes (burst v)) @
           opt_attr (buckets v \<noteq> 0) TCA_AIFO_BUCKETS_LOG (u32_bytes (ilog2 (buckets v))) @
           opt_attr (hash_mask v \<noteq> 0) TCA_AIFO_HASH_MASK (u32_bytes (hash_mask v)) @
           opt_attr (flow_plimit v \<noteq> 0xFFFFFFFF) TCA_AIFO_FLOW_PLIMIT (u32_bytes (flow_plimit v)) @
           opt_attr (sample_size v \<noteq> 0xFFFF) TCA_AIFO_SAMPLE_SIZE (u16_bytes (sample_size v)) @
           opt_attr (sample_period v \<noteq> 0xFFFF) TCA_AIFO_SAMPLE_PERIOD (u16_bytes (sample_period v)) @
           opt_attr (flags_upd v) TCA_AIFO_FLAGS (u32_bytes (flags v))
       \<and> (argv = pre @ k1 # x1 # k2 # x2 # post \<and> parse_args U opts_init pre = Inr v0
            \<and> k1 \<noteq> k2 \<and> \<not> (strcasecmp_eq k1 ''flags'' \<and> strcasecmp_eq k2 ''flags'')
           \<longrightarrow> aifo_parse_opt U (pre @ k2 # x2 # k1 # x1 # post) n = aifo_parse_opt U argv n)"
proof (intro conjI impI)
  show "aifo_parse_opt U argv n
           = (Inr 0, zero_pad (NLMSG_ALIGN (length n)) n
                @ u16_bytes (of_nat (4 + length (block_body v))) @ u16_bytes (of_nat TCA_OPTIONS)
                @ block_body v)"
    using aifo_parse_opt_layout[OF assms] by (simp only: nested_block_def)
next
  show "block_body v =
           opt_attr (plimit v \<noteq> 0xFFFFFFFF) TCA_AIFO_PLIMIT (u32_bytes (plimit v)) @
           opt_attr (burst v \<noteq> 0xFFFFFFFF) TCA_AIFO_BURST (u32_bytes (burst v)) @
           opt_attr (buckets v \<noteq> 0) TCA_AIFO_BUCKETS_LOG (u32_bytes (ilog2 (buckets v))) @
           opt_attr (hash_mask v \<noteq> 0) TCA_AIFO_HASH_MASK (u32_bytes (hash_mask v)) @
           opt_attr (flow_plimit v \<noteq> 0xFFFFFFFF) TCA_AIFO_FLOW_PLIMIT (u32_bytes (flow_plimit v)) @
           opt_attr (sample_size v \<noteq> 0xFFFF) TCA_AIFO_SAMPLE_SIZE (u16_bytes (sample_size v)) @
           opt_attr (sample_period v \<noteq> 0xFFFF) TCA_AIFO_SAMPLE_PERIOD (u16_bytes (sample_period v)) @
           opt_attr (flags_upd v) TCA_AIFO_FLAGS (u32_bytes (flags v))"
    by (rule block_body_def)
next
  assume h: "argv = pre @ k1 # x1 # k2 # x2 # post \<and> parse_args U opts_init pre = Inr v0
            \<and> k1 \<noteq> k2 \<and> \<not> (strcasecmp_eq k1 ''flags'' \<and> strcasecmp_eq k2 ''flags'')"
  with assms(1) have "parse_args U v0 (k1 # x1 # k2 # x2 # post) = Inr v"
    using parse_args_append[of U opts_init pre v0] by simp
  then have "parse_args U v0 (k2 # x2 # k1 # x1 # post) = Inr v"
    by (rule parse_args_swap) (use h in blast)+
  with h have "parse_args U opts_init (pre @ k2 # x2 # k1 # x1 # post) = Inr v"
    using parse_args_append[of U opts_init pre v0] by simp
  with assms(1) show "aifo_parse_opt U (pre @ k2 # x2 # k1 # x1 # post) n = aifo_parse_opt U argv n"
    by (intro aifo_parse_opt_cong) simp
qed

text \<open>
  The theorem at \<^verbatim>\<open>flags 1 samples 9 limit 5\<close> on a message of three bytes: the limit
  comes first in the block, the flags last, and \<^verbatim>\<open>flags 1 limit 5 samples 9\<close> gives the
  same message.
\<close>

theorem encoder_block_layout_witness:
  "parse_args dec_utils opts_init [''flags'', ''1'', ''samples'', ''9'', ''limit'', ''5'']
     = Inr (opts_init\<lparr>plimit := 5, sample_size := 9, flags := 1, flags_upd := True\<rparr>)
   \<and> NLMSG_ALIGN (length [1, 2, 3 :: byte]) + 4
        + length (block_body (opts_init\<lparr>plimit := 5, sample_size := 9, flags := 1, flags_upd := True\<rparr>))
       \<le> 1024
   \<and> aifo_parse_opt dec_utils [''flags'', ''1'', ''samples'', ''9'', ''limit'', ''5''] [1, 2, 3]
       = (Inr 0, [1, 2, 3, 0] @ [28, 0, 2, 0] @ [8, 0, 1, 0, 5, 0, 0, 0]
            @ [6, 0, 6, 0, 9, 0, 0, 0] @ [8, 0, 8, 0, 1, 0, 0, 0])
   \<and> parse_args dec_utils opts_init [''flags'', ''1''] = Inr (opts_init\<lparr>flags := 1, flags_upd := True\<rparr>)
   \<and> ''samples'' \<noteq> ''limit''
   \<and> \<not> (strcasecmp_eq ''samples'' ''flags'' \<and> strcasecmp_eq ''limit'' ''flags'')
   \<and> aifo_parse_opt dec_utils [''flags'', ''1'', ''limit'', ''5'', ''samples'', ''9''] [1, 2, 3]
       = aifo_parse_opt dec_utils [''flags'', ''1'', ''samples'', ''9'', ''limit'', ''5''] [1, 2, 3]"
proof -
  have g: "get_unsigned dec_utils ''1'' = Some 1" "get_u16 dec_utils ''9'' = Some 9"
    "get_u32 dec_utils ''5'' = Some 5"
    by (simp_all add: dec_utils_def strtoul_dec_def digit_val_def)
  define w where "w = opts_init\<lparr>plimit := 5, sample_size := 9, flags := 1, flags_upd := True\<rparr>"
  have p: "parse_args dec_utils opts_init [''flags'', ''1'', ''samples'', ''9'', ''limit'', ''5''] = Inr w"
    by (simp add: g w_def value_options_def AIFO_SAMPLE_SIZE_MAX_def)
  have bb: "block_body w = [8, 0, 1, 0, 5, 0, 0, 0] @ [6, 0, 6, 0, 9, 0, 0, 0] @ [8, 0, 8, 0, 1, 0, 0, 0]"
    by (simp add: w_def block_body_def opts_init_def opt_attr_def rtattr_bytes_def u16_bytes_def
        u32_bytes_def zero_pad_def RTA_ALIGN_def tca_defs replicate_small)
  have c: "NLMSG_ALIGN (length [1, 2, 3 :: byte]) + 4 + length (block_body w) \<le> 1024"
    by (simp add: bb NLMSG_ALIGN_def)
  have p0: "parse_args dec_utils opts_init [''flags'', ''1''] = Inr (opts_init\<lparr>flags := 1, flags_upd := True\<rparr>)"
    by (simp add: g value_options_def)
  have d: "''samples'' \<noteq> ''limit''"
    "\<not> (strcasecmp_eq ''samples'' ''flags'' \<and> strcasecmp_eq ''limit'' ''flags'')"
    by (simp_all add: strcasecmp_eq_def tolower_def)
  note t = encoder_block_layout[OF p c, where pre = "[''flags'', ''1'']" and ?k1.0 = "''samples''"
      and ?x1.0 = "''9''" and ?k2.0 = "''limit''" and ?x2.0 = "''5''" and post = "[]"
      and ?v0.0 = "opts_init\<lparr>flags := 1, flags_upd := True\<rparr>"]
  from t[THEN conjunct1]
  have a: "aifo_parse_opt dec_utils [''flags'', ''1'', ''samples'', ''9'', ''limit'', ''5''] [1, 2, 3]
       = (Inr 0, [1, 2, 3, 0] @ [28, 0, 2, 0] @ [8, 0, 1, 0, 5, 0, 0, 0]
            @ [6, 0, 6, 0, 9, 0, 0, 0] @ [8, 0, 8, 0, 1, 0, 0, 0])"
    by (simp add: bb NLMSG_ALIGN_def zero_pad_def u16_bytes_def TCA_OPTIONS_def replicate_small)
  from t[THEN conjunct2, THEN conjunct2] p0 d
  have b: "aifo_parse_opt dec_utils [''flags'', ''1'', ''limit'', ''5'', ''samples'', ''9''] [1, 2, 3]
       = aifo_parse_opt dec_utils [''flags'', ''1'', ''samples'', ''9'', ''limit'', ''5''] [1, 2, 3]"
    by simp
  from p c a p0 d b show ?thesis unfolding w_def by blast
qed

text \<open>
  C3, as the specification states it, does not hold. On a message of 1020 bytes the
  outer header still fits below the bound 1024; the append of \<^verbatim>\<open>TCA_AIFO_PLIMIT\<close>
  (bound 1024) then finds no room and returns \<open>-1\<close>; the append of
  \<^verbatim>\<open>TCA_AIFO_BURST\<close> (bound \<^verbatim>\<open>MAX_MSG\<close>) succeeds; and \<^verbatim>\<open>aifo_parse_opt\<close>
  returns 0 with a block that holds the burst and not the limit.
\<close>

theorem encode_overflow_counterexample:
  "addattr32 (snd (addattr_nest (replicate 1020 0) 1024 TCA_OPTIONS)) 1024 TCA_AIFO_PLIMIT 1
       = (- 1, replicate 1020 0 @ [4, 0, 2, 0])
   \<and> aifo_parse_opt dec_utils [''limit'', ''1'', ''burst'', ''2''] (replicate 1020 0)
       = (Inr 0, replicate 1020 0 @ [12, 0, 2, 0, 8, 0, 2, 0, 2, 0, 0, 0])"
proof -
  have g: "get_u32 dec_utils ''1'' = Some 1" "get_u32 dec_utils ''2'' = Some 2"
    by (simp_all add: dec_utils_def strtoul_dec_def digit_val_def)
  have p: "parse_args dec_utils opts_init [''limit'', ''1'', ''burst'', ''2'']
      = Inr (opts_init\<lparr>plimit := 1, burst := 2\<rparr>)"
    by (simp add: g)
  have l: "length (replicate 1020 (0 :: byte)) = 1020"
    by (rule length_replicate)
  show ?thesis
    unfolding aifo_parse_opt_ok[OF p] using emit_opts_full_message[OF l] by (simp only: snd_conv)
qed

text \<open>
  C3, amended. The call does not report a lack of room: once the tokens are accepted it
  returns 0 for every message, and its status is the same for any two messages. An
  append that finds no room returns \<open>-1\<close> and leaves the message as it is, and the
  call goes on; when no append at all finds room the message is returned unchanged, with
  status 0.
\<close>

theorem encode_never_reports_overflow:
  "(parse_args U opts_init argv = Inr v \<longrightarrow> fst (aifo_parse_opt U argv n) = Inr 0)
   \<and> fst (aifo_parse_opt U argv n) = fst (aifo_parse_opt U argv n')
   \<and> (maxlen < NLMSG_ALIGN (length n) + RTA_ALIGN (RTA_LENGTH (length d))
        \<longrightarrow> addattr_l n maxlen t d = (- 1, n))
   \<and> (parse_args U opts_init argv = Inr v \<and> MAX_MSG < NLMSG_ALIGN (length n) + 8
        \<longrightarrow> aifo_parse_opt U argv n = (Inr 0, n))"
proof (intro conjI impI)
  assume "parse_args U opts_init argv = Inr v"
  then show "fst (aifo_parse_opt U argv n) = Inr 0"
    by (simp add: aifo_parse_opt_def)
next
  show "fst (aifo_parse_opt U argv n) = fst (aifo_parse_opt U argv n')"
    by (cases "parse_args U opts_init argv") (simp_all add: aifo_parse_opt_def)
next
  assume "maxlen < NLMSG_ALIGN (length n) + RTA_ALIGN (RTA_LENGTH (length d))"
  then show "addattr_l n maxlen t d = (- 1, n)"
    by (rule addattr_l_fail)
next
  assume "parse_args U opts_init argv = Inr v \<and> MAX_MSG < NLMSG_ALIGN (length n) + 8"
  then show "aifo_parse_opt U argv n = (Inr 0, n)"
    by (simp add: aifo_parse_opt_def emit_opts_no_room)
qed

text \<open>
  The amended statement at \<^verbatim>\<open>limit 1 burst 2\<close>: on a message of 1020 bytes the status
  is 0; \<^verbatim>\<open>addattr_l\<close> on a message of 1024 bytes with bound 1024 returns \<open>-1\<close> and
  the same message; on a message of 16380 bytes nothing is written and the status is 0.
\<close>

theorem encode_never_reports_overflow_witness:
  "parse_args dec_utils opts_init [''limit'', ''1'', ''burst'', ''2'']
     = Inr (opts_init\<lparr>plimit := 1, burst := 2\<rparr>)
   \<and> fst (aifo_parse_opt dec_utils [''limit'', ''1'', ''burst'', ''2''] (replicate 1020 0)) = Inr 0
   \<and> (1024 :: nat) < NLMSG_ALIGN (length (replicate 1024 (0 :: byte)))
        + RTA_ALIGN (RTA_LENGTH (length (u32_bytes 1)))
   \<and> addattr_l (replicate 1024 0) 1024 TCA_AIFO_PLIMIT (u32_bytes 1) = (- 1, replicate 1024 0)
   \<and> MAX_MSG < NLMSG_ALIGN (length (replicate 16380 (0 :: byte))) + 8
   \<and> aifo_parse_opt dec_utils [''limit'', ''1'', ''burst'', ''2''] (replicate 16380 0)
       = (Inr 0, replicate 16380 0)"
proof -
  have g: "get_u32 dec_utils ''1'' = Some 1" "get_u32 dec_utils ''2'' = Some 2"
    by (simp_all add: dec_utils_def strtoul_dec_def digit_val_def)
  have p: "parse_args dec_utils opts_init [''limit'', ''1'', ''burst'', ''2'']
      = Inr (opts_init\<lparr>plimit := 1, burst := 2\<rparr>)"
    by (simp add: g)
  have c: "(1024 :: nat) < NLMSG_ALIGN (length (replicate 1024 (0 :: byte)))
      + RTA_ALIGN (RTA_LENGTH (length (u32_bytes 1)))"
    unfolding length_replicate length_u32_bytes
    by (simp add: NLMSG_ALIGN_def RTA_ALIGN_def RTA_LENGTH_def)
  have e: "MAX_MSG < NLMSG_ALIGN (length (replicate 16380 (0 :: byte))) + 8"
    unfolding length_replicate by (simp add: NLMSG_ALIGN_def MAX_MSG_def)
  note t1 = encode_never_reports_overflow[where U = dec_utils
      and argv = "[''limit'', ''1'', ''burst'', ''2'']" and v = "opts_init\<lparr>plimit := 1, burst := 2\<rparr>"
      and n = "replicate 1020 0"]
  note t2 = encode_never_reports_overflow[where n = "replicate 1024 0" and maxlen = 1024
      and d = "u32_bytes 1" and t = TCA_AIFO_PLIMIT]
  note t3 = encode_never_reports_overflow[where U = dec_utils
      and argv = "[''limit'', ''1'', ''burst'', ''2'']" and v = "opts_init\<lparr>plimit := 1, burst := 2\<rparr>"
      and n = "replicate 16380 0"]
  from t1 p have a: "fst (aifo_parse_opt dec_utils [''limit'', ''1'', ''burst'', ''2''] (replicate 1020 0)) = Inr 0"
    by blast
  from t2 c have d: "addattr_l (replicate 1024 0) 1024 TCA_AIFO_PLIMIT (u32_bytes 1) = (- 1, replicate 1024 0)"
    by blast
  from t3 p e have f: "aifo_parse_opt dec_utils [''limit'', ''1'', ''burst'', ''2''] (replicate 16380 0)
       = (Inr 0, replicate 16380 0)"
    by blast
  from p a c d e f show ?thesis by blast
qed

text \<open>
  C2. The claim is what the code does for seven of the eight tags, and what it visibly
  means to do for the eighth: \<^verbatim>\<open>TCA_AIFO_BURST\<close> is written with \<^verbatim>\<open>addattr32\<close> and
  read with \<^verbatim>\<open>rta_getattr_u32\<close>, but its length test is against \<^verbatim>\<open>sizeof(__u16)\<close>.
  A block whose \<^verbatim>\<open>TCA_AIFO_BURST\<close> attribute has a payload of two bytes, \<open>0x34\<close> and
  \<open>0x12\<close>, followed by two bytes of padding, is printed as \<^verbatim>\<open>burst\<close> with the value
  read over four bytes. The same block under each other 32-bit tag prints nothing and
  returns 0, as the claim says; a four-byte burst and a two-byte \<^verbatim>\<open>samples\<close> are
  printed, a one-byte \<^verbatim>\<open>samples\<close> is not.
\<close>

theorem burst_short_payload_is_printed:
  "aifo_print_opt (Some [12, 0, 2, 0, 6, 0, 2, 0, 0x34, 0x12, 0, 0])
     = Some (0, [Print_uint ''burst'' ''burst %u '' 0x1234])
   \<and> aifo_print_opt (Some [12, 0, 2, 0, 6, 0, 1, 0, 0x34, 0x12, 0, 0]) = Some (0, [])
   \<and> aifo_print_opt (Some [12, 0, 2, 0, 6, 0, 3, 0, 0x34, 0x12, 0, 0]) = Some (0, [])
   \<and> aifo_print_opt (Some [12, 0, 2, 0, 6, 0, 4, 0, 0x34, 0x12, 0, 0]) = Some (0, [])
   \<and> aifo_print_opt (Some [12, 0, 2, 0, 6, 0, 5, 0, 0x34, 0x12, 0, 0]) = Some (0, [])
   \<and> aifo_print_opt (Some [12, 0, 2, 0, 6, 0, 8, 0, 0x34, 0x12, 0, 0]) = Some (0, [])
   \<and> aifo_print_opt (Some [12, 0, 2, 0, 8, 0, 2, 0, 0x34, 0x12, 0, 0])
     = Some (0, [Print_uint ''burst'' ''burst %u '' 0x1234])
   \<and> aifo_print_opt (Some [12, 0, 2, 0, 6, 0, 6, 0, 0x34, 0x12, 0, 0])
     = Some (0, [Print_uint ''samples'' ''samples %u '' 0x1234])
   \<and> aifo_print_opt (Some [12, 0, 2, 0, 5, 0, 6, 0, 0x34, 0, 0, 0]) = Some (0, [])"
  by code_simp



text \<open>
  C5, as the specification states it, does not hold. A buffer of two bytes is too small
  to contain the block header, and a header that declares a length of two bytes does not
  cover itself: in both cases the outer marker cannot be parsed, and
  \<^verbatim>\<open>aifo_print_opt\<close> returns 0 and prints nothing. \<^verbatim>\<open>RTA_PAYLOAD\<close> wraps, the length
  handed to \<^verbatim>\<open>parse_rtattr_flags\<close> is negative, the loop does not run, and the
  function has no \<^verbatim>\<open>return\<close> other than \<^verbatim>\<open>return 0\<close>.
\<close>

theorem decode_failure_counterexample:
  "\<not> outer_marker_parses [2, 0]
   \<and> aifo_print_opt (Some [2, 0]) = Some (0, [])
   \<and> \<not> outer_marker_parses [2, 0, 2, 0]
   \<and> aifo_print_opt (Some [2, 0, 2, 0]) = Some (0, [])"
proof -
  have "rta_len [2, 0] = Some 2" "rta_len [2, 0, 2, 0] = Some 2"
    by (simp_all add: rta_len_def)
  then show ?thesis
    by (simp add: outer_marker_parses_def aifo_print_opt_small)
qed

text \<open>
  C5, amended. The options decoder never reports a failure: whenever it returns, it
  returns 0. It returns 0 and prints nothing for an absent block and for every block
  whose header declares fewer than eight bytes, which covers the empty block (a header
  alone) and a header that declares less than a header. For every block that lies in
  its buffer it returns 0, whatever the inner fields hold, with one exception that is
  not a failure status: when the first \<^verbatim>\<open>TCA_AIFO_BUCKETS_LOG\<close> attribute has a payload
  of at least four bytes and holds a value of 32 or more, \<^verbatim>\<open>1U << buckets_log\<close> is
  undefined in C and the model has no result.
\<close>

theorem decode_never_fails:
  "(aifo_print_opt opt = Some (r, out) \<longrightarrow> r = 0)
   \<and> aifo_print_opt None = Some (0, [])
   \<and> (rta_len rta = Some l \<and> unat l < 8 \<longrightarrow> aifo_print_opt (Some rta) = Some (0, []))
   \<and> (attr_in_buffer rta \<longrightarrow>
        (\<exists>out. aifo_print_opt (Some rta) = Some (0, out))
        \<or> (aifo_print_opt (Some rta) = None
           \<and> (\<exists>tb a pl k. parse_rtattr_nested TCA_AIFO_MAX rta = Some tb
                 \<and> tb TCA_AIFO_BUCKETS_LOG = Some a \<and> RTA_PAYLOAD a = Some pl \<and> 4 \<le> pl
                 \<and> rta_getattr_u32 a = Some k \<and> 32 \<le> k)))"
proof (intro conjI impI)
  show "r = 0" if "aifo_print_opt opt = Some (r, out)"
    using that by (rule aifo_print_opt_returns_0)
  show "aifo_print_opt None = Some (0, [])" by (simp add: aifo_print_opt_def)
  show "aifo_print_opt (Some rta) = Some (0, [])" if "rta_len rta = Some l \<and> unat l < 8"
    using that by (simp add: aifo_print_opt_small)
  show "(\<exists>out. aifo_print_opt (Some rta) = Some (0, out))
        \<or> (aifo_print_opt (Some rta) = None
           \<and> (\<exists>tb a pl k. parse_rtattr_nested TCA_AIFO_MAX rta = Some tb
                 \<and> tb TCA_AIFO_BUCKETS_LOG = Some a \<and> RTA_PAYLOAD a = Some pl \<and> 4 \<le> pl
                 \<and> rta_getattr_u32 a = Some k \<and> 32 \<le> k))" if "attr_in_buffer rta"
    using that by (rule aifo_print_opt_in_buffer)
qed

text \<open>
  The amended statement at three blocks: the empty block \<open>[4, 0, 2, 0]\<close> prints nothing
  and returns 0; a block whose \<^verbatim>\<open>TCA_AIFO_PLIMIT\<close> has a payload of two bytes and whose
  \<^verbatim>\<open>TCA_AIFO_SAMPLE_SIZE\<close> holds 9 prints the samples only and returns 0; a block whose
  \<^verbatim>\<open>TCA_AIFO_BUCKETS_LOG\<close> holds 32 has no result.
\<close>

theorem decode_never_fails_witness:
  "rta_len [4, 0, 2, 0] = Some 4 \<and> unat (4 :: u16) < 8 \<and> attr_in_buffer [4, 0, 2, 0]
   \<and> aifo_print_opt (Some [4, 0, 2, 0]) = Some (0, [])
   \<and> attr_in_buffer [20, 0, 2, 0, 6, 0, 1, 0, 1, 0, 0, 0, 6, 0, 6, 0, 9, 0, 0, 0]
   \<and> aifo_print_opt (Some [20, 0, 2, 0, 6, 0, 1, 0, 1, 0, 0, 0, 6, 0, 6, 0, 9, 0, 0, 0])
       = Some (0, [Print_uint ''samples'' ''samples %u '' 9])
   \<and> attr_in_buffer [12, 0, 2, 0, 8, 0, 3, 0, 32, 0, 0, 0]
   \<and> aifo_print_opt (Some [12, 0, 2, 0, 8, 0, 3, 0, 32, 0, 0, 0]) = None
   \<and> (\<exists>tb a. parse_rtattr_nested TCA_AIFO_MAX [12, 0, 2, 0, 8, 0, 3, 0, 32, 0, 0, 0] = Some tb
         \<and> tb TCA_AIFO_BUCKETS_LOG = Some a \<and> rta_getattr_u32 a = Some 32)"
proof -
  define e :: "byte list" where "e = [4, 0, 2, 0]"
  define c :: "byte list" where "c = [20, 0, 2, 0, 6, 0, 1, 0, 1, 0, 0, 0, 6, 0, 6, 0, 9, 0, 0, 0]"
  define b :: "byte list" where "b = [12, 0, 2, 0, 8, 0, 3, 0, 32, 0, 0, 0]"
  have l: "rta_len e = Some 4" by (simp add: e_def rta_len_def)
  have u: "unat (4 :: u16) < 8" by simp
  have ib: "attr_in_buffer e" "attr_in_buffer c" "attr_in_buffer b"
    by (simp_all add: e_def c_def b_def attr_in_buffer_def rta_len_def RTA_ALIGN_def)
  have pc: "aifo_print_opt (Some c) = Some (0, [Print_uint ''samples'' ''samples %u '' 9])"
    unfolding c_def by code_simp
  have pb: "aifo_print_opt (Some b) = None"
    unfolding b_def by code_simp
  have pe: "aifo_print_opt (Some e) = Some (0, [])"
    using decode_never_fails[where rta = e and l = 4 and opt = "Some e" and r = 0 and out = "[]"] l u
    by blast
  have "\<exists>tb a pl k. parse_rtattr_nested TCA_AIFO_MAX b = Some tb
      \<and> tb TCA_AIFO_BUCKETS_LOG = Some a \<and> RTA_PAYLOAD a = Some pl \<and> 4 \<le> pl
      \<and> rta_getattr_u32 a = Some k \<and> 32 \<le> k"
    using decode_never_fails[where rta = b and opt = "Some b" and r = 0 and out = "[]"] ib(3) pb
    by simp
  then obtain tb a k where t: "parse_rtattr_nested TCA_AIFO_MAX b = Some tb"
      "tb TCA_AIFO_BUCKETS_LOG = Some a" "rta_getattr_u32 a = Some k"
    by blast
  have "parse_rtattr_nested TCA_AIFO_MAX b = Some ((\<lambda>_. None)(3 \<mapsto> drop 4 b))"
    unfolding b_def
    by (simp add: parse_rtattr_nested_def parse_rtattr_flags_def RTA_PAYLOAD_def rta_len_def
        RTA_LENGTH_def RTA_ALIGN_def RTA_DATA_def rta_type_def NLA_F_NESTED_def TCA_AIFO_MAX_def
        parse_rtattr_loop.simps[of _ _ _ "[8, 0, 3, 0, 32, 0, 0, 0]"]
        parse_rtattr_loop.simps[of _ _ _ "[]"])
  with t have "a = drop 4 b" by (auto simp add: TCA_AIFO_BUCKETS_LOG_def)
  then have "rta_getattr_u32 a = Some 32"
    by (simp add: b_def rta_getattr_u32_def RTA_DATA_def RTA_LENGTH_def RTA_ALIGN_def)
  with t have "\<exists>tb a. parse_rtattr_nested TCA_AIFO_MAX b = Some tb
         \<and> tb TCA_AIFO_BUCKETS_LOG = Some a \<and> rta_getattr_u32 a = Some 32"
    by blast
  with l u ib pc pb pe show ?thesis
    unfolding e_def c_def b_def by blast
qed

end
